theory Spec2Isabelle
  imports Main
begin

section \<open>JavaScript strings and plain objects\<close>

text \<open>
  A JavaScript string is a sequence of UTF-16 code units; a code unit is modelled by its
  numeric value. \<open>js\<close> turns an ASCII literal into such a sequence.
\<close>

type_synonym jsstring = "nat list"

definition js :: "string \<Rightarrow> jsstring" where
  "js s = map of_char s"

text \<open>
  \<open>String.prototype.trim\<close> removes the ECMAScript white space and line terminator code
  points from both ends: TAB, LF, VT, FF, CR, SP, NBSP, U+1680, U+2000 .. U+200A, U+2028,
  U+2029, U+202F, U+205F, U+3000 and U+FEFF.
\<close>

definition is_ws :: "nat \<Rightarrow> bool" where
  "is_ws c = (c \<in> {9, 10, 11, 12, 13, 32, 160, 5760, 8232, 8233, 8239, 8287, 12288, 65279}
              \<or> (8192 \<le> c \<and> c \<le> 8202))"

definition trim :: "jsstring \<Rightarrow> jsstring" where
  "trim s = rev (dropWhile is_ws (rev (dropWhile is_ws s)))"

text \<open>\<open>s.split(c)\<close> for a one-character separator: never empty, \<open>''.split(c) = ['']\<close>.\<close>

fun split_on :: "nat \<Rightarrow> jsstring \<Rightarrow> jsstring list" where
  "split_on c [] = [[]]"
| "split_on c (x # xs) =
     (if x = c then [] # split_on c xs
      else (case split_on c xs of p # ps \<Rightarrow> (x # p) # ps | [] \<Rightarrow> [[x]]))"

text \<open>\<open>parts.join(c)\<close>.\<close>

fun join :: "nat \<Rightarrow> jsstring list \<Rightarrow> jsstring" where
  "join c [] = []"
| "join c [p] = p"
| "join c (p # q # ps) = p @ c # join c (q # ps)"

definition startsWith :: "jsstring \<Rightarrow> jsstring \<Rightarrow> bool" where
  "startsWith s p = (take (length p) s = p)"

text \<open>\<open>s.includes(p)\<close>: \<open>p\<close> occurs in \<open>s\<close> as a contiguous substring.\<close>

fun includes_str :: "jsstring \<Rightarrow> jsstring \<Rightarrow> bool" where
  "includes_str [] p = (p = [])"
| "includes_str (x # xs) p = (startsWith (x # xs) p \<or> includes_str xs p)"

text \<open>
  A plain object with string values is a map from property names to values. The
  assignment \<open>obj[k] = v\<close> of a string \<open>v\<close> stores an own property, except for the name
  \<open>__proto__\<close>: that assignment reaches the accessor inherited from \<open>Object.prototype\<close>,
  which ignores a value that is neither an object nor null.
\<close>

type_synonym jsobject = "jsstring \<rightharpoonup> jsstring"

definition set_prop :: "jsobject \<Rightarrow> jsstring \<Rightarrow> jsstring \<Rightarrow> jsobject" where
  "set_prop obj k v = (if k = js ''__proto__'' then obj else obj(k \<mapsto> v))"

section \<open>Environment overlay: loadEnvFile\<close>

text \<open>
  The body of the \<open>forEach\<close> callback of \<open>loadEnvFile\<close>, applied to one line of the
  file and the object built so far. Code unit 61 is \<open>=\<close>, 35 is \<open>#\<close>, 10 is the newline.
\<close>

definition loadEnvFile_line :: "jsobject \<Rightarrow> jsstring \<Rightarrow> jsobject" where
  "loadEnvFile_line envVars line0 =
     (let line = trim line0 in
      if line \<noteq> [] \<and> \<not> startsWith line (js ''#'') then
        (case split_on 61 line of
           [] \<Rightarrow> envVars
         | key # valueParts \<Rightarrow>
             if key \<noteq> [] \<and> length valueParts > 0
             then set_prop envVars (trim key) (trim (join 61 valueParts))
             else envVars)
      else envVars)"

text \<open>
  \<open>loadEnvFile\<close> on the content of the \<open>.env\<close> file, \<open>None\<close> when the file does not
  exist.
\<close>

definition loadEnvFile :: "jsstring option \<Rightarrow> jsobject" where
  "loadEnvFile file =
     (case file of
        Some envContent \<Rightarrow> foldl loadEnvFile_line Map.empty (split_on 10 envContent)
      | None \<Rightarrow> Map.empty)"

section \<open>Properties of the environment overlay\<close>

lemma split_on_takeWhile:
  "split_on c s = takeWhile (\<lambda>x. x \<noteq> c) s #
     (if c \<in> set s then split_on c (tl (dropWhile (\<lambda>x. x \<noteq> c) s)) else [])"
  by (induction s) (auto split: list.splits)

lemma split_on_nonempty: "split_on c s \<noteq> []"
  by (subst split_on_takeWhile) simp

lemma join_Cons: "ps \<noteq> [] \<Longrightarrow> join c (p # ps) = p @ c # join c ps"
  by (cases ps) auto

lemma join_split_on: "join c (split_on c s) = s"
proof (induction s)
  case Nil
  show ?case by simp
next
  case (Cons x xs)
  show ?case
  proof (cases "x = c")
    case True
    then show ?thesis using Cons by (simp add: join_Cons split_on_nonempty)
  next
    case False
    obtain p ps where sp: "split_on c xs = p # ps"
      using split_on_nonempty [of c xs] by (cases "split_on c xs") auto
    show ?thesis
    proof (cases ps)
      case Nil
      then show ?thesis using False sp Cons by simp
    next
      case (Cons q qs)
      then show ?thesis using False sp Cons.IH by simp
    qed
  qed
qed

lemma loadEnvFile_line_blank: "trim l = [] \<Longrightarrow> loadEnvFile_line m l = m"
  by (simp add: loadEnvFile_line_def)

lemma loadEnvFile_line_comment:
  "startsWith (trim l) (js ''#'') \<Longrightarrow> loadEnvFile_line m l = m"
  by (simp add: loadEnvFile_line_def)

lemma loadEnvFile_line_first_eq:
  assumes "trim l = k @ 61 # v" "61 \<notin> set k" "k \<noteq> []" "hd k \<noteq> 35"
  shows "loadEnvFile_line m l = set_prop m (trim k) (trim v)"
proof -
  have tk: "takeWhile (\<lambda>c. c \<noteq> 61) (k @ 61 # v) = k"
    using assms(2) by (subst takeWhile_append2) auto
  have dk: "dropWhile (\<lambda>c. c \<noteq> 61) (k @ 61 # v) = 61 # v"
    using assms(2) by (subst dropWhile_append2) auto
  have sp: "split_on 61 (k @ 61 # v) = k # split_on 61 v"
    by (subst split_on_takeWhile) (simp add: tk dk)
  have sw: "\<not> startsWith (k @ 61 # v) (js ''#'')"
    using assms(3,4) by (cases k) (auto simp: startsWith_def js_def)
  show ?thesis
    using assms(3) sw
    by (simp add: loadEnvFile_line_def assms(1) sp split_on_nonempty join_split_on)
qed

lemma foldl_loadEnvFile_line_keeps:
  "\<forall>x \<in> set xs. \<forall>m. loadEnvFile_line m x k = m k \<Longrightarrow>
     foldl loadEnvFile_line m xs k = m k"
  by (induction xs arbitrary: m) auto

lemma loadEnvFile_last_wins:
  assumes "split_on 10 content = ls @ l # ls'"
    and "\<forall>m. loadEnvFile_line m l = m(k \<mapsto> v)"
    and "\<forall>x \<in> set ls'. \<forall>m. loadEnvFile_line m x k = m k"
  shows "loadEnvFile (Some content) k = Some v"
proof -
  let ?m = "foldl loadEnvFile_line Map.empty ls"
  have "loadEnvFile (Some content) k = foldl loadEnvFile_line (loadEnvFile_line ?m l) ls' k"
    by (simp add: loadEnvFile_def assms(1))
  also have "\<dots> = loadEnvFile_line ?m l k"
    using assms(3) by (rule foldl_loadEnvFile_line_keeps)
  also have "\<dots> = Some v"
    by (simp add: assms(2))
  finally show ?thesis .
qed

lemma loadEnvFile_example:
  "loadEnvFile (Some (js ''A=1'' @ [10] @ js ''# comment'' @ [10] @ [10] @ js ''B=2=3'')) =
     [js ''A'' \<mapsto> js ''1'', js ''B'' \<mapsto> js ''2=3'']"
  by (simp add: loadEnvFile_def loadEnvFile_line_def set_prop_def trim_def is_ws_def
      startsWith_def js_def)

lemma loadEnvFile_example_override:
  "loadEnvFile (Some (js ''A=1'' @ [10] @ js ''# comment'' @ [10] @ [10] @ js ''B=2=3''
       @ [10] @ js ''A=9'')) =
     [js ''A'' \<mapsto> js ''9'', js ''B'' \<mapsto> js ''2=3'']"
  by (simp add: loadEnvFile_def loadEnvFile_line_def set_prop_def trim_def is_ws_def
      startsWith_def js_def fun_upd_twist)

text \<open>
  Claim C7. The file with the lines \<open>A=1\<close>, \<open># comment\<close>, a blank line and \<open>B=2=3\<close>
  is parsed to exactly \<open>{A: "1", B: "2=3"}\<close>, and a further line \<open>A=9\<close> gives \<open>A: "9"\<close>.
  For every line: a line that is blank after trimming, or starts with \<open>#\<close> after trimming,
  leaves the object unchanged; a line whose trimmed text is \<open>k=v\<close>, with \<open>k\<close> non-empty,
  free of \<open>=\<close> and not starting with \<open>#\<close>, assigns the trimmed \<open>v\<close> (which may contain
  further \<open>=\<close>) to the trimmed \<open>k\<close>. For every file: the value of a key is the one
  assigned by the last line that assigns the key, whatever the earlier lines are.
\<close>

theorem loadEnvFile_overlay:
  "loadEnvFile (Some (js ''A=1'' @ [10] @ js ''# comment'' @ [10] @ [10] @ js ''B=2=3'')) =
     [js ''A'' \<mapsto> js ''1'', js ''B'' \<mapsto> js ''2=3'']
   \<and> loadEnvFile (Some (js ''A=1'' @ [10] @ js ''# comment'' @ [10] @ [10] @ js ''B=2=3''
       @ [10] @ js ''A=9'')) =
     [js ''A'' \<mapsto> js ''9'', js ''B'' \<mapsto> js ''2=3'']
   \<and> (trim l1 = [] \<longrightarrow> loadEnvFile_line m l1 = m)
   \<and> (startsWith (trim l2) (js ''#'') \<longrightarrow> loadEnvFile_line m l2 = m)
   \<and> (trim l3 = k3 @ 61 # v3 \<and> 61 \<notin> set k3 \<and> k3 \<noteq> [] \<and> hd k3 \<noteq> 35 \<longrightarrow>
        loadEnvFile_line m l3 = set_prop m (trim k3) (trim v3))
   \<and> (split_on 10 content = ls @ l # ls'
        \<and> (\<forall>m. loadEnvFile_line m l = m(k \<mapsto> v))
        \<and> (\<forall>x \<in> set ls'. \<forall>m. loadEnvFile_line m x k = m k) \<longrightarrow>
        loadEnvFile (Some content) k = Some v)"
  using loadEnvFile_example loadEnvFile_example_override loadEnvFile_line_blank
    loadEnvFile_line_comment loadEnvFile_line_first_eq loadEnvFile_last_wins
  by blast

theorem loadEnvFile_overlay_witness:
  "trim (js ''   '') = [] \<and> loadEnvFile_line Map.empty (js ''   '') = Map.empty
   \<and> startsWith (trim (js '' # A=1'')) (js ''#'')
   \<and> loadEnvFile_line Map.empty (js '' # A=1'') = Map.empty
   \<and> trim (js ''B =2=3 '') = js ''B '' @ 61 # js ''2=3''
   \<and> 61 \<notin> set (js ''B '') \<and> js ''B '' \<noteq> [] \<and> hd (js ''B '') \<noteq> 35
   \<and> loadEnvFile_line Map.empty (js ''B =2=3 '') =
       set_prop Map.empty (trim (js ''B '')) (trim (js ''2=3''))
   \<and> split_on 10 (js ''A=1'' @ [10] @ js ''A=9'' @ [10] @ js ''B=2'') =
       [js ''A=1''] @ js ''A=9'' # [js ''B=2'']
   \<and> (\<forall>m. loadEnvFile_line m (js ''A=9'') = m(js ''A'' \<mapsto> js ''9''))
   \<and> (\<forall>m. loadEnvFile_line m (js ''B=2'') (js ''A'') = m (js ''A''))
   \<and> loadEnvFile (Some (js ''A=1'' @ [10] @ js ''A=9'' @ [10] @ js ''B=2'')) (js ''A'') =
       Some (js ''9'')"
proof -
  have h1: "trim (js ''   '') = []"
    by (simp add: trim_def is_ws_def js_def)
  have h2: "startsWith (trim (js '' # A=1'')) (js ''#'')"
    by (simp add: trim_def is_ws_def js_def startsWith_def)
  have h3: "trim (js ''B =2=3 '') = js ''B '' @ 61 # js ''2=3''
      \<and> 61 \<notin> set (js ''B '') \<and> js ''B '' \<noteq> [] \<and> hd (js ''B '') \<noteq> 35"
    by (simp add: trim_def is_ws_def js_def)
  have h4: "split_on 10 (js ''A=1'' @ [10] @ js ''A=9'' @ [10] @ js ''B=2'') =
       [js ''A=1''] @ js ''A=9'' # [js ''B=2'']"
    by (simp add: js_def)
  have h5: "\<forall>m. loadEnvFile_line m (js ''A=9'') = m(js ''A'' \<mapsto> js ''9'')"
    by (simp add: loadEnvFile_line_def set_prop_def trim_def is_ws_def startsWith_def js_def)
  have h6: "\<forall>m. loadEnvFile_line m (js ''B=2'') (js ''A'') = m (js ''A'')"
    by (simp add: loadEnvFile_line_def set_prop_def trim_def is_ws_def startsWith_def js_def)
  then have h7: "\<forall>x \<in> set [js ''B=2'']. \<forall>m. loadEnvFile_line m x (js ''A'') = m (js ''A'')"
    by simp
  show ?thesis
    using h1 h2 h3 h4 h5 h6 h7
      loadEnvFile_overlay [of "js ''   ''" Map.empty "js '' # A=1''" "js ''B =2=3 ''"
        "js ''B ''" "js ''2=3''" "js ''A=1'' @ [10] @ js ''A=9'' @ [10] @ js ''B=2''"
        "[js ''A=1'']" "js ''A=9''" "[js ''B=2'']" "js ''A''" "js ''9''"]
    by blast
qed

section \<open>Health poller: checkFlaskServer\<close>

text \<open>
  \<open>checkFlaskServer\<close> returns a promise and keeps a counter \<open>retries\<close>. \<open>check\<close> issues
  one GET request and attaches three listeners to it: the response callback, the
  \<open>error\<close> listener and the \<open>timeout\<close> listener. None of them is guarded: each runs
  whenever its event is raised, whether or not the promise has settled and whether or
  not another listener of the same request has run. The poller is modelled by its
  parameters, its counter, the state of its promise, the number of pending retry timers,
  the number of requests that have had no callback yet, the number of requests whose
  response has arrived and was left unread on a socket that is still open, and the log
  of the requests it issued and the timers it set.
\<close>

datatype js_error = Error jsstring | TypeError jsstring

datatype probe_outcome = Response int | ReqError | ReqTimeout

datatype poll_status = Polling | ResolvedTrue | RejectedWith js_error

datatype poll_action = HttpGet | SetTimeout nat

record poller =
  maxRetries :: nat
  retryDelay :: nat
  retries :: nat
  status :: poll_status
  timers :: nat
  awaiting :: nat
  unread :: nat
  plog :: "poll_action list"

text \<open>\<open>resolve(true)\<close> and \<open>reject(err)\<close> on the poller's promise: a promise settles once.\<close>

definition poller_resolve :: "poller \<Rightarrow> poller" where
  "poller_resolve p = (if status p = Polling then p\<lparr>status := ResolvedTrue\<rparr> else p)"

definition poller_reject :: "js_error \<Rightarrow> poller \<Rightarrow> poller" where
  "poller_reject err p = (if status p = Polling then p\<lparr>status := RejectedWith err\<rparr> else p)"

text \<open>
  \<open>check\<close> issues a request; \<open>retryCheck\<close> increments \<open>retries\<close> and either sets a retry
  timer or rejects the promise.
\<close>

definition check :: "poller \<Rightarrow> poller" where
  "check p = p\<lparr>awaiting := awaiting p + 1, plog := plog p @ [HttpGet]\<rparr>"

definition retryCheck :: "poller \<Rightarrow> poller" where
  "retryCheck p =
     (let p1 = p\<lparr>retries := retries p + 1\<rparr> in
      if retries p1 < maxRetries p1
      then p1\<lparr>timers := timers p1 + 1, plog := plog p1 @ [SetTimeout (retryDelay p1)]\<rparr>
      else poller_reject (Error (js ''Flask server did not respond in time'')) p1)"

text \<open>
  The three listeners of a request. The response callback compares the status code with
  200 and does not read the response. The \<open>error\<close> listener calls \<open>retryCheck\<close>. The
  \<open>timeout\<close> listener calls \<open>req.destroy()\<close> and then \<open>retryCheck\<close>; destroying a
  request that has had no response raises the \<open>error\<close> event of that request, so its
  \<open>error\<close> listener runs as well, while destroying a request whose response has
  arrived raises none.
\<close>

definition on_response :: "poller \<Rightarrow> int \<Rightarrow> poller" where
  "on_response p statusCode = (if statusCode = 200 then poller_resolve p else retryCheck p)"

definition on_error :: "poller \<Rightarrow> poller" where
  "on_error p = retryCheck p"

definition on_timeout :: "bool \<Rightarrow> poller \<Rightarrow> poller" where
  "on_timeout responded p =
     (let p1 = retryCheck p in if responded then p1 else on_error p1)"

text \<open>The call \<open>checkFlaskServer(maxRetries, retryDelay)\<close>: \<open>retries = 0\<close>, then \<open>check()\<close>.\<close>

definition checkFlaskServer :: "nat \<Rightarrow> nat \<Rightarrow> poller" where
  "checkFlaskServer mr d =
     check \<lparr>maxRetries = mr, retryDelay = d, retries = 0, status = Polling, timers = 0,
            awaiting = 0, unread = 0, plog = []\<rparr>"

text \<open>
  The events of a poller. \<open>Outcome\<close> is the first event of a request that has had no
  callback yet: a response, an error, or the socket timeout of 2000 ms. \<open>LateTimeout\<close>
  is the socket timeout of a request whose response was left unread. \<open>RetryTimer\<close> is a
  pending retry timer firing, which calls \<open>check\<close>.
\<close>

datatype poller_event = Outcome probe_outcome | LateTimeout | RetryTimer

definition poller_step :: "poller \<Rightarrow> poller_event \<Rightarrow> poller" where
  "poller_step p e =
     (case e of
        Outcome oc \<Rightarrow>
          (if awaiting p > 0 then
             (let p1 = p\<lparr>awaiting := awaiting p - 1\<rparr> in
              case oc of
                Response statusCode \<Rightarrow> on_response (p1\<lparr>unread := unread p1 + 1\<rparr>) statusCode
              | ReqError \<Rightarrow> on_error p1
              | ReqTimeout \<Rightarrow> on_timeout False p1)
           else p)
      | LateTimeout \<Rightarrow>
          (if unread p > 0 then on_timeout True (p\<lparr>unread := unread p - 1\<rparr>) else p)
      | RetryTimer \<Rightarrow> (if timers p > 0 then check (p\<lparr>timers := timers p - 1\<rparr>) else p))"

text \<open>
  A poller whose requests each end in their first event: each outcome of the list is
  delivered to the request in flight, and the retry timer, when one was set, fires
  before the next outcome.
\<close>

definition attempt :: "poller \<Rightarrow> probe_outcome \<Rightarrow> poller" where
  "attempt p oc = poller_step (poller_step p (Outcome oc)) RetryTimer"

fun attempts :: "poller \<Rightarrow> probe_outcome list \<Rightarrow> poller" where
  "attempts p [] = p"
| "attempts p (oc # ocs) = attempts (attempt p oc) ocs"

definition settled :: "poller \<Rightarrow> bool" where
  "settled p = (status p \<noteq> Polling)"

text \<open>The number of requests a poller has issued.\<close>

definition requests :: "poller \<Rightarrow> nat" where
  "requests p = count_list (plog p) HttpGet"

text \<open>
  Every retry timer is set at a different value of \<open>retries\<close> below \<open>maxRetries\<close>, and
  every request but the first is issued by a retry timer.
\<close>

definition poller_inv :: "poller \<Rightarrow> bool" where
  "poller_inv p = (requests p + timers p = 1 + min (retries p) (maxRetries p - 1))"

text \<open>One request in flight, no timer pending, the promise pending.\<close>

definition seq_ready :: "poller \<Rightarrow> bool" where
  "seq_ready p = (status p = Polling \<and> awaiting p = 1 \<and> timers p = 0)"

subsection \<open>Properties of the health poller\<close>

lemmas poller_defs =
  poller_step_def on_response_def on_error_def on_timeout_def retryCheck_def check_def
  poller_resolve_def poller_reject_def

lemma poller_status_stable: "settled p \<Longrightarrow> status (poller_step p pe) = status p"
  by (cases pe)
     (auto simp: poller_defs settled_def Let_def split: probe_outcome.splits)

lemma poller_step_maxRetries: "maxRetries (poller_step p pe) = maxRetries p"
  by (cases pe) (auto simp: poller_defs Let_def split: probe_outcome.splits)

lemma poller_run_maxRetries: "maxRetries (foldl poller_step p pes) = maxRetries p"
  by (induction pes arbitrary: p) (simp_all add: poller_step_maxRetries)

lemma poller_inv_init: "poller_inv (checkFlaskServer mr d)"
  by (simp add: poller_inv_def checkFlaskServer_def check_def requests_def)

lemma poller_inv_retryCheck:
  "requests (retryCheck p) + timers (retryCheck p) + min (retries p) (maxRetries p - 1) =
     requests p + timers p + min (retries (retryCheck p)) (maxRetries (retryCheck p) - 1)"
  by (auto simp: retryCheck_def poller_reject_def requests_def Let_def min_def)

lemma poller_inv_retryCheck_keeps: "poller_inv p \<Longrightarrow> poller_inv (retryCheck p)"
  using poller_inv_retryCheck [of p] by (simp add: poller_inv_def)

lemma poller_inv_step: "poller_inv p \<Longrightarrow> poller_inv (poller_step p pe)"
proof (cases pe)
  case (Outcome oc)
  assume i: "poller_inv p"
  have a: "poller_inv (p\<lparr>awaiting := awaiting p - 1\<rparr>)"
    using i by (simp add: poller_inv_def requests_def)
  have u: "poller_inv (p\<lparr>awaiting := awaiting p - 1, unread := Suc (unread p)\<rparr>)"
    using i by (simp add: poller_inv_def requests_def)
  have r: "poller_inv (poller_resolve (p\<lparr>awaiting := awaiting p - 1, unread := Suc (unread p)\<rparr>))"
    using i by (simp add: poller_inv_def requests_def poller_resolve_def)
  show ?thesis
    using i a u r
    by (cases oc)
       (auto simp: Outcome poller_step_def on_response_def on_error_def on_timeout_def Let_def
          intro!: poller_inv_retryCheck_keeps)
next
  case LateTimeout
  assume i: "poller_inv p"
  have "poller_inv (p\<lparr>unread := unread p - 1\<rparr>)"
    using i by (simp add: poller_inv_def requests_def)
  then show ?thesis
    using i by (auto simp: LateTimeout poller_step_def on_timeout_def Let_def
        intro!: poller_inv_retryCheck_keeps)
next
  case RetryTimer
  assume i: "poller_inv p"
  then show ?thesis
    by (auto simp: RetryTimer poller_step_def check_def poller_inv_def requests_def)
qed

lemma poller_inv_run: "poller_inv p \<Longrightarrow> poller_inv (foldl poller_step p pes)"
  by (induction pes arbitrary: p) (simp_all add: poller_inv_step)

lemma poller_requests_bound:
  "requests (foldl poller_step (checkFlaskServer mr d) pes) \<le> max 1 mr"
proof -
  define q where "q = foldl poller_step (checkFlaskServer mr d) pes"
  have i: "poller_inv q"
    unfolding q_def by (rule poller_inv_run) (rule poller_inv_init)
  have m: "maxRetries q = mr"
    by (simp add: q_def poller_run_maxRetries checkFlaskServer_def check_def)
  show ?thesis
    using i m unfolding q_def [symmetric] by (auto simp: poller_inv_def)
qed

lemma poller_step_resolves:
  "status (poller_step p pe) = ResolvedTrue \<Longrightarrow> status p \<noteq> ResolvedTrue \<Longrightarrow>
     pe = Outcome (Response 200)"
  by (cases pe)
     (auto simp: poller_defs Let_def split: probe_outcome.splits if_splits)

lemma poller_run_resolves:
  "status (foldl poller_step p pes) = ResolvedTrue \<Longrightarrow> status p \<noteq> ResolvedTrue \<Longrightarrow>
     Outcome (Response 200) \<in> set pes"
proof (induction pes arbitrary: p)
  case Nil
  then show ?case by simp
next
  case (Cons pe pes)
  show ?case
  proof (cases "status (poller_step p pe) = ResolvedTrue")
    case True
    then show ?thesis
      using poller_step_resolves [of p pe] Cons.prems(2) by simp
  next
    case False
    then show ?thesis
      using Cons.IH [of "poller_step p pe"] Cons.prems(1) by simp
  qed
qed

text \<open>Requests that each end in one response or one error, none in a timeout.\<close>

lemma attempt_retry:
  assumes "seq_ready p" "oc \<noteq> Response 200" "oc \<noteq> ReqTimeout" "retries p + 1 < maxRetries p"
  shows "seq_ready (attempt p oc) \<and> retries (attempt p oc) = retries p + 1
    \<and> maxRetries (attempt p oc) = maxRetries p \<and> retryDelay (attempt p oc) = retryDelay p
    \<and> plog (attempt p oc) = plog p @ [SetTimeout (retryDelay p), HttpGet]"
  using assms
  by (cases oc) (auto simp: attempt_def seq_ready_def poller_defs Let_def)

lemma attempt_reject:
  assumes "seq_ready p" "oc \<noteq> Response 200" "oc \<noteq> ReqTimeout"
    "\<not> retries p + 1 < maxRetries p"
  shows "status (attempt p oc) = RejectedWith (Error (js ''Flask server did not respond in time''))
    \<and> awaiting (attempt p oc) = 0 \<and> timers (attempt p oc) = 0
    \<and> retries (attempt p oc) = retries p + 1 \<and> plog (attempt p oc) = plog p"
  using assms
  by (cases oc) (auto simp: attempt_def seq_ready_def poller_defs Let_def)

lemma attempt_resolve:
  assumes "seq_ready p"
  shows "status (attempt p (Response 200)) = ResolvedTrue
    \<and> awaiting (attempt p (Response 200)) = 0 \<and> timers (attempt p (Response 200)) = 0
    \<and> retries (attempt p (Response 200)) = retries p
    \<and> plog (attempt p (Response 200)) = plog p"
  using assms by (auto simp: attempt_def seq_ready_def poller_defs Let_def)

lemma attempt_idle: "awaiting p = 0 \<Longrightarrow> timers p = 0 \<Longrightarrow> attempt p oc = p"
  by (simp add: attempt_def poller_step_def)

lemma attempts_idle: "awaiting p = 0 \<Longrightarrow> timers p = 0 \<Longrightarrow> attempts p ocs = p"
  by (induction ocs) (simp_all add: attempt_idle)

lemma attempts_append: "attempts p (xs @ ys) = attempts (attempts p xs) ys"
  by (induction xs arbitrary: p) simp_all

lemma attempts_as_events:
  "attempts p ocs = foldl poller_step p (concat (map (\<lambda>oc. [Outcome oc, RetryTimer]) ocs))"
  by (induction ocs arbitrary: p) (simp_all add: attempt_def)

lemma attempts_failing:
  assumes "seq_ready p" "Response 200 \<notin> set ocs" "ReqTimeout \<notin> set ocs"
    "retries p + length ocs < maxRetries p"
  shows "seq_ready (attempts p ocs) \<and> retries (attempts p ocs) = retries p + length ocs
    \<and> maxRetries (attempts p ocs) = maxRetries p \<and> retryDelay (attempts p ocs) = retryDelay p
    \<and> plog (attempts p ocs) =
        plog p @ concat (replicate (length ocs) [SetTimeout (retryDelay p), HttpGet])"
  using assms
proof (induction ocs arbitrary: p)
  case Nil
  then show ?case by simp
next
  case (Cons oc ocs)
  have q: "seq_ready (attempt p oc) \<and> retries (attempt p oc) = retries p + 1
    \<and> maxRetries (attempt p oc) = maxRetries p \<and> retryDelay (attempt p oc) = retryDelay p
    \<and> plog (attempt p oc) = plog p @ [SetTimeout (retryDelay p), HttpGet]"
    using Cons.prems by (intro attempt_retry) auto
  have ih: "seq_ready (attempts (attempt p oc) ocs)
    \<and> retries (attempts (attempt p oc) ocs) = retries (attempt p oc) + length ocs
    \<and> maxRetries (attempts (attempt p oc) ocs) = maxRetries (attempt p oc)
    \<and> retryDelay (attempts (attempt p oc) ocs) = retryDelay (attempt p oc)
    \<and> plog (attempts (attempt p oc) ocs) =
        plog (attempt p oc) @
          concat (replicate (length ocs) [SetTimeout (retryDelay (attempt p oc)), HttpGet])"
    using Cons.prems q by (intro Cons.IH) auto
  show ?case
    using ih q by simp
qed

lemma count_list_plog:
  "count_list (HttpGet # concat (replicate n [SetTimeout d, HttpGet])) HttpGet = n + 1"
  by (induction n) simp_all

lemma checkFlaskServer_seq_ready:
  "seq_ready (checkFlaskServer mr d)" "retries (checkFlaskServer mr d) = 0"
  "maxRetries (checkFlaskServer mr d) = mr" "retryDelay (checkFlaskServer mr d) = d"
  "plog (checkFlaskServer mr d) = [HttpGet]"
  by (simp_all add: checkFlaskServer_def check_def seq_ready_def)

lemma checkFlaskServer_exhausts:
  assumes "1 \<le> mr" "mr \<le> length ocs" "Response 200 \<notin> set (take mr ocs)"
    "ReqTimeout \<notin> set (take mr ocs)"
  shows "status (attempts (checkFlaskServer mr d) ocs) =
      RejectedWith (Error (js ''Flask server did not respond in time''))
    \<and> plog (attempts (checkFlaskServer mr d) ocs) =
      HttpGet # concat (replicate (mr - 1) [SetTimeout d, HttpGet])"
proof -
  define p where "p = checkFlaskServer mr d"
  define xs where "xs = take (mr - 1) ocs"
  define x where "x = ocs ! (mr - 1)"
  define ys where "ys = drop mr ocs"
  have split: "ocs = xs @ x # ys"
    using assms(1,2) id_take_nth_drop [of "mr - 1" ocs] by (simp add: xs_def x_def ys_def)
  have len: "length xs = mr - 1"
    using assms(2) by (simp add: xs_def)
  have sub: "set xs \<subseteq> set (take mr ocs)"
    unfolding xs_def by (rule set_take_subset_set_take) simp
  have fails: "Response 200 \<notin> set xs" "ReqTimeout \<notin> set xs"
    using assms(3,4) sub by blast+
  have "x \<in> set (take mr ocs)"
    using assms(1,2) by (auto simp: x_def in_set_conv_nth intro!: exI [of _ "mr - 1"])
  then have last: "x \<noteq> Response 200" "x \<noteq> ReqTimeout"
    using assms(3,4) by blast+
  note p0 = checkFlaskServer_seq_ready [of mr d, folded p_def]
  define q where "q = attempts p xs"
  have "retries p + length xs < maxRetries p"
    using assms(1) by (simp add: p0 len)
  then have q0: "seq_ready q" "retries q = mr - 1" "maxRetries q = mr"
    "plog q = HttpGet # concat (replicate (mr - 1) [SetTimeout d, HttpGet])"
    using attempts_failing [OF p0(1) fails, folded q_def] by (simp_all add: p0 len)
  have nr: "\<not> retries q + 1 < maxRetries q"
    using assms(1) by (simp add: q0)
  note s2 = attempt_reject [OF q0(1) last nr]
  have "attempts p ocs = attempts (attempt q x) ys"
    by (simp add: split attempts_append q_def)
  also have "\<dots> = attempt q x"
    using s2 by (intro attempts_idle) simp_all
  finally have "attempts p ocs = attempt q x" .
  then show ?thesis
    using s2 by (simp add: q0 p_def)
qed

lemma checkFlaskServer_succeeds:
  assumes "length fails < mr" "Response 200 \<notin> set fails" "ReqTimeout \<notin> set fails"
  shows "status (attempts (checkFlaskServer mr d) (fails @ Response 200 # rest)) = ResolvedTrue
    \<and> plog (attempts (checkFlaskServer mr d) (fails @ Response 200 # rest)) =
      HttpGet # concat (replicate (length fails) [SetTimeout d, HttpGet])"
proof -
  define p where "p = checkFlaskServer mr d"
  note p0 = checkFlaskServer_seq_ready [of mr d, folded p_def]
  define q where "q = attempts p fails"
  have "retries p + length fails < maxRetries p"
    using assms(1) by (simp add: p0)
  then have q0: "seq_ready q"
    "plog q = HttpGet # concat (replicate (length fails) [SetTimeout d, HttpGet])"
    using attempts_failing [OF p0(1) assms(2,3), folded q_def] by (simp_all add: p0)
  note s2 = attempt_resolve [OF q0(1)]
  have "attempts p (fails @ Response 200 # rest) = attempts (attempt q (Response 200)) rest"
    by (simp add: attempts_append q_def)
  also have "\<dots> = attempt q (Response 200)"
    using s2 by (intro attempts_idle) simp_all
  finally have "attempts p (fails @ Response 200 # rest) = attempt q (Response 200)" .
  then show ?thesis
    using s2 by (simp add: q0 p_def)
qed

lemma checkFlaskServer_verdict:
  assumes "1 \<le> mr" "mr \<le> length ocs" "ReqTimeout \<notin> set ocs"
  shows "status (attempts (checkFlaskServer mr d) ocs) =
     (if Response 200 \<in> set (take mr ocs) then ResolvedTrue
      else RejectedWith (Error (js ''Flask server did not respond in time'')))"
proof (cases "Response 200 \<in> set (take mr ocs)")
  case False
  have "ReqTimeout \<notin> set (take mr ocs)"
    using assms(3) by (meson in_set_takeD)
  then show ?thesis
    using False checkFlaskServer_exhausts [OF assms(1,2) False, of d] by simp
next
  case True
  then obtain fails rest0 where sp: "take mr ocs = fails @ Response 200 # rest0"
    and nf: "Response 200 \<notin> set fails"
    by (meson split_list_first)
  have "length (take mr ocs) = mr"
    using assms(2) by simp
  then have len: "length fails < mr"
    by (simp add: sp)
  have eq: "ocs = fails @ Response 200 # (rest0 @ drop mr ocs)"
    using append_take_drop_id [of mr ocs] by (simp add: sp)
  have nt: "ReqTimeout \<notin> set fails"
    using assms(3) by (subst (asm) eq) simp
  show ?thesis
    using True checkFlaskServer_succeeds [OF len nf nt, of d "rest0 @ drop mr ocs"]
    by (simp add: eq [symmetric])
qed

text \<open>
  Claim C2. The claim asks for exactly \<open>maxRetries\<close> requests in a row and then the
  rejection, and for no request after a success. The code misses both when a listener
  of a request runs after another one of the same request. With a budget of 2, a first
  request that times out runs \<open>retryCheck\<close> twice (the \<open>timeout\<close> listener, then the
  \<open>error\<close> listener that \<open>req.destroy()\<close> triggers): the promise is rejected after one
  request, and the retry timer set on the way issues the second request after the
  rejection. And after a response with status 200 has resolved the promise, the timeout
  of the unread response sets a retry timer, which issues a further request.
\<close>

theorem checkFlaskServer_timeout_overrun:
  "status (foldl poller_step (checkFlaskServer 2 1000) [Outcome ReqTimeout]) =
       RejectedWith (Error (js ''Flask server did not respond in time''))
   \<and> requests (foldl poller_step (checkFlaskServer 2 1000) [Outcome ReqTimeout]) = 1
   \<and> requests (foldl poller_step (checkFlaskServer 2 1000) [Outcome ReqTimeout, RetryTimer]) = 2
   \<and> status (foldl poller_step (checkFlaskServer 2 1000) [Outcome (Response 200)]) = ResolvedTrue
   \<and> requests (foldl poller_step (checkFlaskServer 2 1000) [Outcome (Response 200)]) = 1
   \<and> requests (foldl poller_step (checkFlaskServer 2 1000)
         [Outcome (Response 200), LateTimeout, RetryTimer]) = 2"
  by (simp add: checkFlaskServer_def poller_defs requests_def Let_def)

text \<open>
  Claim C10. Only a response with status 200 resolves the promise, and a response with
  another status runs \<open>retryCheck\<close> once. But the response is left unread, so on a
  socket that stays open the timeout of the same request fires later and its listener
  runs \<open>retryCheck\<close> again: a response with status 204 then costs two units of the
  budget, not one.
\<close>

theorem unread_response_counts_twice:
  "status (poller_step (checkFlaskServer 10 1000) (Outcome (Response 200))) = ResolvedTrue
   \<and> status (poller_step (checkFlaskServer 10 1000) (Outcome (Response 204))) = Polling
   \<and> retries (poller_step (checkFlaskServer 10 1000) (Outcome (Response 204))) = 1
   \<and> retries (foldl poller_step (checkFlaskServer 10 1000)
         [Outcome (Response 204), LateTimeout]) = 2"
  by (simp add: checkFlaskServer_def poller_defs Let_def)

section \<open>Backend supervisor\<close>

subsection \<open>Configuration and merged environment\<close>

text \<open>
  \<open>FLASK_PORT = process.env.FLASK_PORT || 5000\<close> and
  \<open>FLASK_HOST = process.env.FLASK_HOST || '127.0.0.1'\<close>: an unset or empty variable
  gives the default. The port is kept as the string that \<open>FLASK_PORT.toString()\<close>
  yields.
\<close>

definition FLASK_PORT :: "jsobject \<Rightarrow> jsstring" where
  "FLASK_PORT penv =
     (case penv (js ''FLASK_PORT'') of
        Some v \<Rightarrow> if v \<noteq> [] then v else js ''5000''
      | None \<Rightarrow> js ''5000'')"

definition FLASK_HOST :: "jsobject \<Rightarrow> jsstring" where
  "FLASK_HOST penv =
     (case penv (js ''FLASK_HOST'') of
        Some v \<Rightarrow> if v \<noteq> [] then v else js ''127.0.0.1''
      | None \<Rightarrow> js ''127.0.0.1'')"

text \<open>
  The object literal \<open>{...process.env, ...envVars, FLASK_PORT: ..., FLASK_HOST: ...,
  FLASK_DEBUG: ..., PYTHONUNBUFFERED: '1'}\<close> of \<open>startFlaskServer\<close>: the properties are
  written in source order, a later write replacing an earlier one.
\<close>

definition flaskEnv :: "jsobject \<Rightarrow> jsobject \<Rightarrow> bool \<Rightarrow> jsobject" where
  "flaskEnv penv envVars isDev =
     (penv ++ envVars)
       (js ''FLASK_PORT'' \<mapsto> FLASK_PORT penv,
        js ''FLASK_HOST'' \<mapsto> FLASK_HOST penv,
        js ''FLASK_DEBUG'' \<mapsto> (if isDev then js ''True'' else js ''False''),
        js ''PYTHONUNBUFFERED'' \<mapsto> js ''1'')"

subsection \<open>State, environment and events\<close>

datatype 'e promise = Pending | Resolved | Rejected 'e

datatype signal = SIGTERM | SIGKILL

datatype listen_outcome = ListenError jsstring | Listening

record child =
  cmd :: jsstring
  args :: "jsstring list"
  childEnv :: jsobject

text \<open>
  What the main process does to the outside, in order: dialogs, \<open>app.quit()\<close>, the
  \<open>spawn\<close> of the backend, signals sent with \<open>kill\<close>, timers set by \<open>startFlaskServer\<close>
  and \<open>stopFlaskServer\<close>, window and tray creation, and the \<open>flask-server-ready\<close>
  message with its \<open>url\<close>, \<open>host\<close> and \<open>port\<close>. The version probes of \<open>getPythonPath\<close>
  and the console output are not recorded.
\<close>

datatype action =
    PortDialog
  | FailDialog jsstring
  | AppQuit
  | Spawn jsstring "jsstring list"
  | Kill signal
  | SetTimer nat
  | CreateWindow
  | CreateTray
  | ShowWindow
  | HideWindow
  | SendReady jsstring jsstring jsstring
  | UncaughtException js_error

text \<open>
  What the main process reads from the outside: the platform, which commands answer
  \<open>--version\<close>, the value of \<open>path.join(__dirname, 'api_server.py')\<close>, the content of
  the \<open>.env\<close> file, whether the script exists, \<open>process.env\<close>, \<open>app.isPackaged\<close>, the
  event the probe server of \<open>isPortAvailable\<close> emits, and the index of the button the
  user presses in each of the two dialogs.
\<close>

record environment =
  win32 :: bool
  execSync_ok :: "jsstring \<Rightarrow> bool"
  flaskScriptPath :: jsstring
  envFile :: "jsstring option"
  scriptExists :: bool
  processEnv :: jsobject
  isPackaged :: bool
  portListen :: listen_outcome
  portChoice :: nat
  failChoice :: nat

text \<open>
  The variables of the main process: the globals \<open>flaskProcess\<close>, \<open>mainWindow\<close> and
  \<open>app.isQuitting\<close>; the locals \<open>serverStarted\<close> and \<open>startupOutput\<close> of
  \<open>startFlaskServer\<close> and the promise it returns; the two pollers it may start; the
  pending timers; whether the listeners on the child are live (from \<open>spawn\<close> to the
  \<open>close\<close> event) and whether the \<open>activate\<close> listener is registered. \<open>mainWindow\<close> is
  \<open>Some False\<close> for a window whose \<open>ready-to-show\<close> listener has not run yet.
\<close>

record app_state =
  flaskProcess :: "child option"
  listening :: bool
  serverStarted :: bool
  startupOutput :: jsstring
  startup :: "js_error promise"
  sigPoll :: "poller option"
  fbPoll :: "poller option"
  startupTimer :: bool
  graceTimers :: nat
  mainWindow :: "bool option"
  activateHandler :: bool
  isQuitting :: bool
  actions :: "action list"

definition init_state :: app_state where
  "init_state =
     \<lparr>flaskProcess = None, listening = False, serverStarted = False, startupOutput = [],
      startup = Pending, sigPoll = None, fbPoll = None, startupTimer = False,
      graceTimers = 0, mainWindow = None, activateHandler = False, isQuitting = False,
      actions = []\<rparr>"

datatype event =
    Stdout jsstring
  | Stderr jsstring
  | ProcError js_error
  | Close "int option"
  | StartupTimeout
  | GraceTimeout
  | SigPoll poller_event
  | FbPoll poller_event
  | ReadyToShow
  | Activate
  | WindowClose
  | BeforeQuit

definition act :: "action list \<Rightarrow> app_state \<Rightarrow> app_state" where
  "act as s = s\<lparr>actions := actions s @ as\<rparr>"

text \<open>A promise settles once: \<open>resolve\<close> and \<open>reject\<close> on a settled promise do nothing.\<close>

definition resolve :: "app_state \<Rightarrow> app_state" where
  "resolve s = (if startup s = Pending then s\<lparr>startup := Resolved\<rparr> else s)"

definition reject :: "js_error \<Rightarrow> app_state \<Rightarrow> app_state" where
  "reject err s = (if startup s = Pending then s\<lparr>startup := Rejected err\<rparr> else s)"

definition message :: "js_error \<Rightarrow> jsstring" where
  "message err = (case err of Error m \<Rightarrow> m | TypeError m \<Rightarrow> m)"

subsection \<open>Executable resolution and launch\<close>

definition getPythonPath :: "environment \<Rightarrow> js_error + jsstring" where
  "getPythonPath env =
     (let pythonCommands =
        (if win32 env then [js ''python'', js ''python3'', js ''py'']
         else [js ''python3'', js ''python''])
      in case find (execSync_ok env) pythonCommands of
           Some c \<Rightarrow> Inr c
         | None \<Rightarrow> Inl (Error (js ''Python not found. Please install Python 3.7+'')))"

definition getFlaskScriptPath :: "environment \<Rightarrow> jsstring" where
  "getFlaskScriptPath env = flaskScriptPath env"

text \<open>
  The synchronous part of \<open>startFlaskServer\<close>: an exception of \<open>getPythonPath\<close> is
  caught and rejects the promise, a missing script rejects it, otherwise the child is
  spawned with the merged environment, the listeners are attached and the startup timer
  of 15000 ms is set.
\<close>

definition startFlaskServer :: "environment \<Rightarrow> app_state \<Rightarrow> app_state" where
  "startFlaskServer env s =
     (case getPythonPath env of
        Inl error \<Rightarrow> reject error s
      | Inr pythonPath \<Rightarrow>
          (let scriptPath = getFlaskScriptPath env in
           if \<not> scriptExists env
           then reject (Error (js ''Script Flask introuvable: '' @ scriptPath)) s
           else act [Spawn pythonPath [scriptPath], SetTimer 15000]
                  (s\<lparr>flaskProcess :=
                       Some \<lparr>cmd = pythonPath, args = [scriptPath],
                             childEnv = flaskEnv (processEnv env) (loadEnvFile (envFile env))
                               (\<not> isPackaged env)\<rparr>,
                     listening := True, serverStarted := False, startupOutput := [],
                     startupTimer := True\<rparr>)))"

subsection \<open>Listeners attached by startFlaskServer\<close>

text \<open>
  The stdout listener tests each chunk (\<open>data.toString()\<close>) for a readiness substring,
  the stderr listener for a fatal substring; neither splits the chunk into lines.
\<close>

definition readySignature :: "jsstring \<Rightarrow> bool" where
  "readySignature output =
     (includes_str output (js ''Running on'')
      \<or> includes_str output (js ''Serving Flask'')
      \<or> includes_str output (js ''Server starting''))"

definition on_stdout :: "app_state \<Rightarrow> jsstring \<Rightarrow> app_state" where
  "on_stdout s output =
     (let s1 = s\<lparr>startupOutput := startupOutput s @ output\<rparr> in
      if readySignature output \<and> \<not> serverStarted s1
      then s1\<lparr>serverStarted := True, sigPoll := Some (checkFlaskServer 10 1000)\<rparr>
      else s1)"

definition fatal :: "jsstring \<Rightarrow> bool" where
  "fatal output =
     (includes_str output (js ''Address already in use'')
      \<or> includes_str output (js ''Permission denied'')
      \<or> includes_str output (js ''ModuleNotFoundError'')
      \<or> includes_str output (js ''ImportError''))"

definition on_stderr :: "app_state \<Rightarrow> jsstring \<Rightarrow> app_state" where
  "on_stderr s output =
     (if fatal output then (if \<not> serverStarted s then reject (Error output) s else s)
      else s)"

definition on_proc_error :: "app_state \<Rightarrow> js_error \<Rightarrow> app_state" where
  "on_proc_error s error = (if \<not> serverStarted s then reject error s else s)"

definition on_close :: "app_state \<Rightarrow> int option \<Rightarrow> app_state" where
  "on_close s code = s\<lparr>flaskProcess := None, listening := False\<rparr>"

text \<open>
  The \<open>then\<close> and \<open>catch\<close> callbacks on the poller started by the stdout listener run
  when that poller settles.
\<close>

definition on_sigPoll :: "app_state \<Rightarrow> poller_event \<Rightarrow> app_state" where
  "on_sigPoll s pe =
     (case sigPoll s of
        None \<Rightarrow> s
      | Some p \<Rightarrow>
          (let p1 = poller_step p pe; s1 = s\<lparr>sigPoll := Some p1\<rparr> in
           if settled p then s1
           else (case status p1 of
                   ResolvedTrue \<Rightarrow> resolve s1
                 | RejectedWith err \<Rightarrow> reject err s1
                 | _ \<Rightarrow> s1)))"

text \<open>The callback of the 15000 ms timer, and the callbacks on the poller it starts.\<close>

definition on_startup_timeout :: "app_state \<Rightarrow> app_state" where
  "on_startup_timeout s =
     (if \<not> serverStarted s then s\<lparr>fbPoll := Some (checkFlaskServer 5 1000)\<rparr> else s)"

definition on_fbPoll :: "app_state \<Rightarrow> poller_event \<Rightarrow> app_state" where
  "on_fbPoll s pe =
     (case fbPoll s of
        None \<Rightarrow> s
      | Some p \<Rightarrow>
          (let p1 = poller_step p pe; s1 = s\<lparr>fbPoll := Some p1\<rparr> in
           if settled p then s1
           else (case status p1 of
                   ResolvedTrue \<Rightarrow> resolve (s1\<lparr>serverStarted := True\<rparr>)
                 | RejectedWith err \<Rightarrow>
                     reject (Error (js ''Flask server did not start in time'')) s1
                 | _ \<Rightarrow> s1)))"

subsection \<open>Shutdown: stopFlaskServer\<close>

text \<open>
  \<open>flaskProcess.kill(sig)\<close>: a method call on \<open>null\<close> raises a \<open>TypeError\<close>; on a child
  it sends the signal.
\<close>

definition kill :: "signal \<Rightarrow> app_state \<Rightarrow> js_error + app_state" where
  "kill sig s =
     (case flaskProcess s of
        None \<Rightarrow> Inl (TypeError (js ''Cannot read properties of null''))
      | Some c \<Rightarrow> Inr (act [Kill sig] s))"

definition stopFlaskServer :: "app_state \<Rightarrow> js_error + app_state" where
  "stopFlaskServer s =
     (if flaskProcess s \<noteq> None then
        (case kill SIGTERM s of
           Inl err \<Rightarrow> Inl err
         | Inr s1 \<Rightarrow> Inr (act [SetTimer 5000] (s1\<lparr>graceTimers := graceTimers s1 + 1\<rparr>)))
      else Inr s)"

text \<open>The callback of the 5000 ms timer set by \<open>stopFlaskServer\<close>.\<close>

definition on_grace_timeout :: "app_state \<Rightarrow> js_error + app_state" where
  "on_grace_timeout s =
     (if flaskProcess s \<noteq> None then
        (case kill SIGKILL s of
           Inl err \<Rightarrow> Inl err
         | Inr s1 \<Rightarrow> Inr (s1\<lparr>flaskProcess := None\<rparr>))
      else Inr s)"

subsection \<open>Window and application events\<close>

definition createWindow :: "app_state \<Rightarrow> app_state" where
  "createWindow s = act [CreateWindow] (s\<lparr>mainWindow := Some False\<rparr>)"

definition on_ready_to_show :: "environment \<Rightarrow> app_state \<Rightarrow> app_state" where
  "on_ready_to_show env s =
     act [ShowWindow,
          SendReady (js ''http://'' @ FLASK_HOST (processEnv env) @ js '':''
                       @ FLASK_PORT (processEnv env))
            (FLASK_HOST (processEnv env)) (FLASK_PORT (processEnv env))]
       (s\<lparr>mainWindow := Some True\<rparr>)"

definition on_window_close :: "app_state \<Rightarrow> app_state" where
  "on_window_close s =
     (if \<not> isQuitting s then act [HideWindow] s else s\<lparr>mainWindow := None\<rparr>)"

definition on_activate :: "app_state \<Rightarrow> app_state" where
  "on_activate s = (if mainWindow s = None then createWindow s else act [ShowWindow] s)"

definition on_before_quit :: "app_state \<Rightarrow> js_error + app_state" where
  "on_before_quit s = stopFlaskServer (s\<lparr>isQuitting := True\<rparr>)"

subsection \<open>The ready handler of the application\<close>

definition isPortAvailable :: "listen_outcome \<Rightarrow> bool" where
  "isPortAvailable ev = (case ev of ListenError e \<Rightarrow> False | Listening \<Rightarrow> True)"

text \<open>
  The part of the ready handler after \<open>await startFlaskServer()\<close>: it runs when the
  promise settles.
\<close>

definition windowAndTray :: "app_state \<Rightarrow> app_state" where
  "windowAndTray s = act [CreateTray] ((createWindow s)\<lparr>activateHandler := True\<rparr>)"

definition afterStartup :: "environment \<Rightarrow> app_state \<Rightarrow> app_state" where
  "afterStartup env s =
     (case startup s of
        Pending \<Rightarrow> s
      | Resolved \<Rightarrow> windowAndTray s
      | Rejected error \<Rightarrow>
          (let s1 = act [FailDialog (message error)] s in
           if failChoice env = 0 then act [AppQuit] s1 else windowAndTray s1))"

definition whenReady :: "environment \<Rightarrow> app_state \<Rightarrow> app_state" where
  "whenReady env s =
     (let portAvailable = isPortAvailable (portListen env) in
      if \<not> portAvailable then
        (let s1 = act [PortDialog] s in
         if portChoice env = 0 then act [AppQuit] s1
         else afterStartup env (startFlaskServer env s1))
      else afterStartup env (startFlaskServer env s))"

subsection \<open>Event loop\<close>

text \<open>
  One event is delivered to its listener when the listener is live: the child's events
  between \<open>spawn\<close> and \<open>close\<close>, a timer when it is pending, a poller event when the
  poller exists, \<open>ready-to-show\<close> once per window, \<open>activate\<close> after the ready handler
  has registered it. An exception of a listener reaches the \<open>uncaughtException\<close>
  handler. The ready handler is suspended at \<open>await startFlaskServer()\<close> while the
  startup promise is pending; its continuation \<open>afterStartup\<close> runs in the step that
  settles the promise.
\<close>

definition handle :: "environment \<Rightarrow> app_state \<Rightarrow> event \<Rightarrow> js_error + app_state" where
  "handle env s e =
     (case e of
        Stdout output \<Rightarrow> Inr (if listening s then on_stdout s output else s)
      | Stderr output \<Rightarrow> Inr (if listening s then on_stderr s output else s)
      | ProcError error \<Rightarrow> Inr (if listening s then on_proc_error s error else s)
      | Close code \<Rightarrow> Inr (if listening s then on_close s code else s)
      | StartupTimeout \<Rightarrow>
          Inr (if startupTimer s then on_startup_timeout (s\<lparr>startupTimer := False\<rparr>) else s)
      | GraceTimeout \<Rightarrow>
          (if graceTimers s > 0 then on_grace_timeout (s\<lparr>graceTimers := graceTimers s - 1\<rparr>)
           else Inr s)
      | SigPoll pe \<Rightarrow> Inr (on_sigPoll s pe)
      | FbPoll pe \<Rightarrow> Inr (on_fbPoll s pe)
      | ReadyToShow \<Rightarrow> Inr (if mainWindow s = Some False then on_ready_to_show env s else s)
      | Activate \<Rightarrow> Inr (if activateHandler s then on_activate s else s)
      | WindowClose \<Rightarrow> Inr (if mainWindow s \<noteq> None then on_window_close s else s)
      | BeforeQuit \<Rightarrow> on_before_quit s)"

definition step :: "environment \<Rightarrow> app_state \<Rightarrow> event \<Rightarrow> app_state" where
  "step env s e =
     (case handle env s e of
        Inl err \<Rightarrow> act [UncaughtException err] s
      | Inr s1 \<Rightarrow> if startup s = Pending then afterStartup env s1 else s1)"

definition run :: "environment \<Rightarrow> event list \<Rightarrow> app_state" where
  "run env es = foldl (step env) (whenReady env init_state) es"

text \<open>An environment for concrete runs.\<close>

definition example_env :: environment where
  "example_env =
     \<lparr>win32 = False, execSync_ok = (\<lambda>c. c = js ''python3''),
      flaskScriptPath = js ''/app/api_server.py'',
      envFile = Some (js ''A=1'' @ [10] @ js ''FLASK_DEBUG=False''),
      scriptExists = True, processEnv = [js ''A'' \<mapsto> js ''0'', js ''HOME'' \<mapsto> js ''/root''],
      isPackaged = False, portListen = Listening, portChoice = 0, failChoice = 1\<rparr>"

subsection \<open>Properties of the merged environment\<close>

lemma js_keys_distinct:
  "js ''FLASK_PORT'' \<noteq> js ''FLASK_HOST''" "js ''FLASK_PORT'' \<noteq> js ''FLASK_DEBUG''"
  "js ''FLASK_PORT'' \<noteq> js ''PYTHONUNBUFFERED''" "js ''FLASK_HOST'' \<noteq> js ''FLASK_DEBUG''"
  "js ''FLASK_HOST'' \<noteq> js ''PYTHONUNBUFFERED''" "js ''FLASK_DEBUG'' \<noteq> js ''PYTHONUNBUFFERED''"
  by (simp_all add: js_def)

lemma flaskEnv_lookup:
  "flaskEnv penv envVars isDev k =
     (if k = js ''PYTHONUNBUFFERED'' then Some (js ''1'')
      else if k = js ''FLASK_DEBUG'' then Some (if isDev then js ''True'' else js ''False'')
      else if k = js ''FLASK_HOST'' then Some (FLASK_HOST penv)
      else if k = js ''FLASK_PORT'' then Some (FLASK_PORT penv)
      else (case envVars k of Some v \<Rightarrow> Some v | None \<Rightarrow> penv k))"
  by (simp add: flaskEnv_def map_add_def)

lemma startFlaskServer_childEnv:
  "getPythonPath env = Inr c \<Longrightarrow> scriptExists env \<Longrightarrow>
     map_option childEnv (flaskProcess (startFlaskServer env s)) =
       Some (flaskEnv (processEnv env) (loadEnvFile (envFile env)) (\<not> isPackaged env))"
  by (simp add: startFlaskServer_def act_def Let_def)

text \<open>
  Claim C8. The environment given to the spawned backend is \<open>process.env\<close>, overridden
  by the variables of the \<open>.env\<close> file, overridden by the explicit values: for every
  key, the value is the explicit one for \<open>FLASK_PORT\<close>, \<open>FLASK_HOST\<close>, \<open>FLASK_DEBUG\<close>
  and \<open>PYTHONUNBUFFERED\<close>, otherwise the file's when the file has the key, otherwise
  the inherited one. The child that \<open>startFlaskServer\<close> spawns carries this mapping.
\<close>

theorem flaskEnv_override_order:
  "flaskEnv penv envVars isDev k =
     (if k = js ''PYTHONUNBUFFERED'' then Some (js ''1'')
      else if k = js ''FLASK_DEBUG'' then Some (if isDev then js ''True'' else js ''False'')
      else if k = js ''FLASK_HOST'' then Some (FLASK_HOST penv)
      else if k = js ''FLASK_PORT'' then Some (FLASK_PORT penv)
      else (case envVars k of Some v \<Rightarrow> Some v | None \<Rightarrow> penv k))
   \<and> (getPythonPath env = Inr c \<and> scriptExists env \<longrightarrow>
        map_option childEnv (flaskProcess (startFlaskServer env s)) =
          Some (flaskEnv (processEnv env) (loadEnvFile (envFile env)) (\<not> isPackaged env)))"
  using flaskEnv_lookup startFlaskServer_childEnv by blast

lemma example_env_overlay:
  "loadEnvFile (envFile example_env) = [js ''A'' \<mapsto> js ''1'', js ''FLASK_DEBUG'' \<mapsto> js ''False'']"
  by (simp add: example_env_def loadEnvFile_def loadEnvFile_line_def set_prop_def trim_def
      is_ws_def startsWith_def js_def)

lemma example_env_python: "getPythonPath example_env = Inr (js ''python3'')"
  by (simp add: example_env_def getPythonPath_def js_def)

theorem flaskEnv_override_order_witness:
  "getPythonPath example_env = Inr (js ''python3'') \<and> scriptExists example_env
   \<and> map_option childEnv (flaskProcess (startFlaskServer example_env init_state)) =
        Some (flaskEnv (processEnv example_env) (loadEnvFile (envFile example_env))
          (\<not> isPackaged example_env))
   \<and> flaskEnv (processEnv example_env) (loadEnvFile (envFile example_env))
        (\<not> isPackaged example_env) (js ''A'') = Some (js ''1'')
   \<and> flaskEnv (processEnv example_env) (loadEnvFile (envFile example_env))
        (\<not> isPackaged example_env) (js ''HOME'') = Some (js ''/root'')
   \<and> flaskEnv (processEnv example_env) (loadEnvFile (envFile example_env))
        (\<not> isPackaged example_env) (js ''FLASK_DEBUG'') = Some (js ''True'')"
proof -
  have h: "getPythonPath example_env = Inr (js ''python3'') \<and> scriptExists example_env"
    by (simp add: example_env_python) (simp add: example_env_def)
  have a: "js ''A'' \<noteq> js ''PYTHONUNBUFFERED''" "js ''A'' \<noteq> js ''FLASK_DEBUG''"
    "js ''A'' \<noteq> js ''FLASK_HOST''" "js ''A'' \<noteq> js ''FLASK_PORT''"
    "js ''HOME'' \<noteq> js ''PYTHONUNBUFFERED''" "js ''HOME'' \<noteq> js ''FLASK_DEBUG''"
    "js ''HOME'' \<noteq> js ''FLASK_HOST''" "js ''HOME'' \<noteq> js ''FLASK_PORT''"
    "js ''HOME'' \<noteq> js ''A''" "js ''FLASK_DEBUG'' \<noteq> js ''PYTHONUNBUFFERED''"
    by (simp_all add: js_def)
  have p: "processEnv example_env = [js ''A'' \<mapsto> js ''0'', js ''HOME'' \<mapsto> js ''/root'']"
    "\<not> isPackaged example_env"
    by (simp_all add: example_env_def)
  note t = flaskEnv_override_order [of "processEnv example_env"
      "loadEnvFile (envFile example_env)" "\<not> isPackaged example_env" _ example_env
      "js ''python3''" init_state]
  show ?thesis
    using h t [of "js ''A''"] t [of "js ''HOME''"] t [of "js ''FLASK_DEBUG''"]
    by (simp add: a p example_env_overlay)
qed

subsection \<open>Shutdown properties\<close>

text \<open>The signals sent, in order.\<close>

fun signals :: "action list \<Rightarrow> signal list" where
  "signals [] = []"
| "signals (Kill sig # as) = sig # signals as"
| "signals (a # as) = signals as"

lemma signals_append: "signals (xs @ ys) = signals xs @ signals ys"
  by (induction xs rule: signals.induct) simp_all

lemmas handler_defs =
  on_stdout_def on_stderr_def on_proc_error_def on_close_def on_sigPoll_def
  on_startup_timeout_def on_fbPoll_def on_grace_timeout_def on_ready_to_show_def
  on_window_close_def on_activate_def on_before_quit_def stopFlaskServer_def kill_def
  createWindow_def windowAndTray_def afterStartup_def resolve_def reject_def act_def

lemma afterStartup_frame:
  "flaskProcess (afterStartup env s) = flaskProcess s"
  "listening (afterStartup env s) = listening s"
  "graceTimers (afterStartup env s) = graceTimers s"
  "serverStarted (afterStartup env s) = serverStarted s"
  "startup (afterStartup env s) = startup s"
  "sigPoll (afterStartup env s) = sigPoll s"
  "fbPoll (afterStartup env s) = fbPoll s"
  "startupTimer (afterStartup env s) = startupTimer s"
  "signals (actions (afterStartup env s)) = signals (actions s)"
  by (simp_all add: afterStartup_def windowAndTray_def createWindow_def act_def Let_def
      signals_append split: promise.splits)

lemma handle_total: "\<exists>s1. handle env s e = Inr s1"
  by (cases e) (auto simp: handle_def on_before_quit_def on_grace_timeout_def
      stopFlaskServer_def kill_def split: option.splits)

lemma step_flaskProcess:
  "flaskProcess (step env s e) =
     (if (\<exists>c. e = Close c) \<and> listening s then None
      else if e = GraceTimeout \<and> graceTimers s > 0 then None
      else flaskProcess s)"
  by (cases e)
     (auto simp: step_def handle_def handler_defs afterStartup_frame Let_def
        split: option.splits poll_status.splits promise.splits)


lemma step_listening:
  "listening (step env s e) = (listening s \<and> (\<forall>c. e \<noteq> Close c))"
  by (cases e)
     (auto simp: step_def handle_def handler_defs afterStartup_frame Let_def
        split: option.splits poll_status.splits promise.splits)

lemma step_graceTimers:
  "graceTimers (step env s e) =
     (if e = GraceTimeout then graceTimers s - 1
      else if e = BeforeQuit \<and> flaskProcess s \<noteq> None then graceTimers s + 1
      else graceTimers s)"
  by (cases e)
     (auto simp: step_def handle_def handler_defs afterStartup_frame Let_def
        split: option.splits poll_status.splits promise.splits)

lemma step_signals:
  "signals (actions (step env s e)) =
     signals (actions s) @
       (if e = BeforeQuit \<and> flaskProcess s \<noteq> None then [SIGTERM]
        else if e = GraceTimeout \<and> graceTimers s > 0 \<and> flaskProcess s \<noteq> None then [SIGKILL]
        else [])"
  by (cases e)
     (auto simp: step_def handle_def handler_defs afterStartup_frame Let_def signals_append
        split: option.splits poll_status.splits promise.splits)

lemma stopFlaskServer_live:
  "flaskProcess s \<noteq> None \<Longrightarrow>
     stopFlaskServer s =
       Inr (s\<lparr>graceTimers := graceTimers s + 1,
              actions := actions s @ [Kill SIGTERM, SetTimer 5000]\<rparr>)"
  by (auto simp: stopFlaskServer_def kill_def act_def)

lemma stopFlaskServer_null: "flaskProcess s = None \<Longrightarrow> stopFlaskServer s = Inr s"
  by (simp add: stopFlaskServer_def)

lemma on_grace_timeout_live:
  "flaskProcess s \<noteq> None \<Longrightarrow>
     on_grace_timeout s = Inr (s\<lparr>flaskProcess := None, actions := actions s @ [Kill SIGKILL]\<rparr>)"
  by (auto simp: on_grace_timeout_def kill_def act_def)

lemma on_grace_timeout_null: "flaskProcess s = None \<Longrightarrow> on_grace_timeout s = Inr s"
  by (simp add: on_grace_timeout_def)

text \<open>Between the stop request and the grace timer.\<close>

lemma grace_period:
  assumes "GraceTimeout \<notin> set es"
  shows "(flaskProcess (foldl (step env) s es) \<noteq> None) =
           (flaskProcess s \<noteq> None \<and> (\<not> listening s \<or> (\<forall>c. Close c \<notin> set es)))
         \<and> listening (foldl (step env) s es) = (listening s \<and> (\<forall>c. Close c \<notin> set es))
         \<and> graceTimers (foldl (step env) s es) \<ge> graceTimers s
         \<and> (SIGKILL \<in> set (signals (actions (foldl (step env) s es)))) =
             (SIGKILL \<in> set (signals (actions s)))"
  using assms
proof (induction es arbitrary: s)
  case Nil
  show ?case by simp
next
  case (Cons e es)
  have ne: "e \<noteq> GraceTimeout" and rest: "GraceTimeout \<notin> set es"
    using Cons.prems by auto
  note ih = Cons.IH [OF rest, of "step env s e"]
  have fp: "flaskProcess (step env s e) =
      (if (\<exists>c. e = Close c) \<and> listening s then None else flaskProcess s)"
    using ne by (simp add: step_flaskProcess)
  have li: "listening (step env s e) = (listening s \<and> (\<forall>c. e \<noteq> Close c))"
    by (rule step_listening)
  have gt: "graceTimers (step env s e) \<ge> graceTimers s"
    using ne by (simp add: step_graceTimers)
  have sg: "(SIGKILL \<in> set (signals (actions (step env s e)))) =
      (SIGKILL \<in> set (signals (actions s)))"
    using ne by (simp add: step_signals)
  show ?case
    using ih gt by (auto simp: fp li sg)
qed


lemma run_append: "run env (es @ es') = foldl (step env) (run env es) es'"
  by (simp add: run_def)

lemma run_snoc: "run env (es @ [e]) = step env (run env es) e"
  by (simp add: run_def)

lemma startFlaskServer_frame:
  "flaskProcess s = None \<Longrightarrow> flaskProcess (startFlaskServer env s) \<noteq> None \<Longrightarrow>
     listening (startFlaskServer env s)"
  by (auto simp: startFlaskServer_def reject_def act_def Let_def split: sum.splits if_splits)

lemma whenReady_listening:
  "flaskProcess (whenReady env init_state) \<noteq> None \<Longrightarrow> listening (whenReady env init_state)"
  using startFlaskServer_frame [of init_state env]
    startFlaskServer_frame [of "act [PortDialog] init_state" env]
  by (auto simp: whenReady_def afterStartup_frame Let_def act_def init_state_def
      split: if_splits)

lemma run_listening: "flaskProcess (run env es) \<noteq> None \<Longrightarrow> listening (run env es)"
proof (induction es rule: rev_induct)
  case Nil
  then show ?case by (simp add: run_def whenReady_listening)
next
  case (snoc e es)
  then show ?case
    by (auto simp: run_snoc step_flaskProcess step_listening split: if_splits)
qed

lemma step_before_quit_live:
  "flaskProcess s \<noteq> None \<Longrightarrow>
     actions (step env s BeforeQuit) = actions s @ [Kill SIGTERM, SetTimer 5000]"
  by (auto simp: step_def handle_def on_before_quit_def stopFlaskServer_def kill_def act_def
      afterStartup_def split: promise.splits)

text \<open>
  Claim C6. With a live handle, \<open>stopFlaskServer\<close> sends SIGTERM and sets a timer of
  5000 ms. Whatever happens between the stop request and that timer, the timer sends
  SIGKILL if and only if no \<open>close\<close> event of the child has arrived in between: a
  child that closes within the grace period receives no SIGKILL.
\<close>

theorem stopFlaskServer_escalation:
  "flaskProcess (run env es0) \<noteq> None \<and> GraceTimeout \<notin> set es
     \<and> SIGKILL \<notin> set (signals (actions (run env es0))) \<longrightarrow>
   stopFlaskServer (run env es0) =
       Inr ((run env es0)\<lparr>graceTimers := graceTimers (run env es0) + 1,
              actions := actions (run env es0) @ [Kill SIGTERM, SetTimer 5000]\<rparr>)
   \<and> actions (run env (es0 @ [BeforeQuit])) = actions (run env es0) @ [Kill SIGTERM, SetTimer 5000]
   \<and> graceTimers (run env (es0 @ [BeforeQuit])) = graceTimers (run env es0) + 1
   \<and> (SIGKILL \<in> set (signals (actions (run env (es0 @ BeforeQuit # es @ [GraceTimeout]))))
        \<longleftrightarrow> (\<forall>c. Close c \<notin> set es))"
proof (intro impI)
  assume h: "flaskProcess (run env es0) \<noteq> None \<and> GraceTimeout \<notin> set es
     \<and> SIGKILL \<notin> set (signals (actions (run env es0)))"
  define s where "s = run env es0"
  define s1 where "s1 = step env s BeforeQuit"
  define s2 where "s2 = foldl (step env) s1 es"
  have live: "flaskProcess s \<noteq> None" and ng: "GraceTimeout \<notin> set es"
    and nk: "SIGKILL \<notin> set (signals (actions s))"
    using h by (simp_all add: s_def)
  have lis: "listening s"
    using live unfolding s_def by (rule run_listening)
  have a1: "stopFlaskServer s =
       Inr (s\<lparr>graceTimers := graceTimers s + 1,
              actions := actions s @ [Kill SIGTERM, SetTimer 5000]\<rparr>)"
    using live by (rule stopFlaskServer_live)
  have a2: "actions s1 = actions s @ [Kill SIGTERM, SetTimer 5000]"
    unfolding s1_def using live by (rule step_before_quit_live)
  have a3: "graceTimers s1 = graceTimers s + 1"
    using live by (simp add: s1_def step_graceTimers)
  have f1: "flaskProcess s1 \<noteq> None" "listening s1"
    using live lis by (simp_all add: s1_def step_flaskProcess step_listening)
  have k1: "SIGKILL \<notin> set (signals (actions s1))"
    using nk by (simp add: a2 signals_append)
  note gp = grace_period [OF ng, of env s1, folded s2_def]
  have f2: "(flaskProcess s2 \<noteq> None) = (\<forall>c. Close c \<notin> set es)"
    using gp f1 by simp
  have g2: "graceTimers s2 > 0"
    using gp a3 by simp
  have k2: "SIGKILL \<notin> set (signals (actions s2))"
    using gp k1 by simp
  have "run env (es0 @ BeforeQuit # es @ [GraceTimeout]) = step env s2 GraceTimeout"
    by (simp add: run_def s2_def s1_def s_def)
  then have a4: "(SIGKILL \<in> set (signals (actions (run env (es0 @ BeforeQuit # es @ [GraceTimeout])))))
      = (\<forall>c. Close c \<notin> set es)"
    using f2 g2 k2 by (simp add: step_signals)
  show "stopFlaskServer (run env es0) =
       Inr ((run env es0)\<lparr>graceTimers := graceTimers (run env es0) + 1,
              actions := actions (run env es0) @ [Kill SIGTERM, SetTimer 5000]\<rparr>)
   \<and> actions (run env (es0 @ [BeforeQuit])) = actions (run env es0) @ [Kill SIGTERM, SetTimer 5000]
   \<and> graceTimers (run env (es0 @ [BeforeQuit])) = graceTimers (run env es0) + 1
   \<and> (SIGKILL \<in> set (signals (actions (run env (es0 @ BeforeQuit # es @ [GraceTimeout]))))
        \<longleftrightarrow> (\<forall>c. Close c \<notin> set es))"
    using a1 a2 a3 a4 by (simp add: run_snoc s_def s1_def)
qed


lemma example_start:
  "flaskProcess (run example_env []) \<noteq> None"
  "actions (run example_env []) =
     [Spawn (js ''python3'') [js ''/app/api_server.py''], SetTimer 15000]"
  "listening (run example_env [])" "\<not> serverStarted (run example_env [])"
  "startup (run example_env []) = Pending" "startupTimer (run example_env [])"
  "graceTimers (run example_env []) = 0" "sigPoll (run example_env []) = None"
  "fbPoll (run example_env []) = None" "mainWindow (run example_env []) = None"
  by (simp_all add: run_def whenReady_def isPortAvailable_def startFlaskServer_def
      example_env_python getFlaskScriptPath_def afterStartup_def act_def init_state_def Let_def)
     (simp_all add: example_env_def js_def)

theorem stopFlaskServer_escalation_witness:
  "flaskProcess (run example_env []) \<noteq> None
   \<and> GraceTimeout \<notin> set [Stdout (js ''bye''), Close (Some 0)]
   \<and> SIGKILL \<notin> set (signals (actions (run example_env [])))
   \<and> actions (run example_env ([] @ [BeforeQuit])) =
       actions (run example_env []) @ [Kill SIGTERM, SetTimer 5000]
   \<and> SIGKILL \<notin> set (signals (actions (run example_env
         ([] @ BeforeQuit # [Stdout (js ''bye''), Close (Some 0)] @ [GraceTimeout]))))
   \<and> SIGKILL \<in> set (signals (actions (run example_env
         ([] @ BeforeQuit # [Stdout (js ''bye'')] @ [GraceTimeout]))))"
proof -
  have h: "flaskProcess (run example_env []) \<noteq> None"
    "SIGKILL \<notin> set (signals (actions (run example_env [])))"
    by (simp_all add: example_start)
  have g: "GraceTimeout \<notin> set [Stdout (js ''bye''), Close (Some 0)]"
    "GraceTimeout \<notin> set [Stdout (js ''bye'')]"
    by simp_all
  have c: "\<not> (\<forall>c. Close c \<notin> set [Stdout (js ''bye''), Close (Some 0)])"
    "\<forall>c. Close c \<notin> set [Stdout (js ''bye'')]"
    by simp_all
  show ?thesis
    using h g c
      stopFlaskServer_escalation [of example_env "[]" "[Stdout (js ''bye''), Close (Some 0)]"]
      stopFlaskServer_escalation [of example_env "[]" "[Stdout (js ''bye'')]"]
    by blast
qed

lemma on_close_null: "flaskProcess (on_close s code) = None"
  by (simp add: on_close_def)

text \<open>
  A second stop while the handle is still set is no error; it sends SIGTERM again and
  sets another timer.
\<close>

lemma stopFlaskServer_twice_live:
  "flaskProcess s \<noteq> None \<Longrightarrow>
     \<exists>s1 s2. stopFlaskServer s = Inr s1 \<and> stopFlaskServer s1 = Inr s2
       \<and> actions s2 = actions s @ [Kill SIGTERM, SetTimer 5000, Kill SIGTERM, SetTimer 5000]
       \<and> graceTimers s2 = graceTimers s + 2"
  by (auto simp: stopFlaskServer_def kill_def act_def)

text \<open>
  Claim C9. \<open>stopFlaskServer\<close> raises no error in any state, so neither when called
  twice in a row nor when no process was launched. With \<open>flaskProcess\<close> null (nothing
  launched, or the handle reset by the \<open>close\<close> event or by the grace timer) it returns
  the state unchanged: no signal, no timer.
\<close>

theorem stopFlaskServer_idempotent:
  "(\<exists>s1 s2. stopFlaskServer s = Inr s1 \<and> stopFlaskServer s1 = Inr s2)
   \<and> (flaskProcess s = None \<longrightarrow> stopFlaskServer s = Inr s)
   \<and> stopFlaskServer init_state = Inr init_state
   \<and> stopFlaskServer (on_close s code) = Inr (on_close s code)
   \<and> (\<exists>s3. on_grace_timeout s = Inr s3 \<and> stopFlaskServer s3 = Inr s3)
   \<and> (\<exists>s4. handle env s BeforeQuit = Inr s4)
   \<and> (flaskProcess s = None \<longrightarrow> actions (step env s BeforeQuit) = actions s
        \<and> graceTimers (step env s BeforeQuit) = graceTimers s
        \<and> flaskProcess (step env s BeforeQuit) = None)"
proof (intro conjI)
  show "\<exists>s1 s2. stopFlaskServer s = Inr s1 \<and> stopFlaskServer s1 = Inr s2"
    by (cases "flaskProcess s") (auto simp: stopFlaskServer_def kill_def act_def)
  show "flaskProcess s = None \<longrightarrow> stopFlaskServer s = Inr s"
    by (simp add: stopFlaskServer_null)
  show "stopFlaskServer init_state = Inr init_state"
    by (simp add: stopFlaskServer_null init_state_def)
  show "stopFlaskServer (on_close s code) = Inr (on_close s code)"
    by (simp add: stopFlaskServer_null on_close_null)
  show "\<exists>s3. on_grace_timeout s = Inr s3 \<and> stopFlaskServer s3 = Inr s3"
    by (cases "flaskProcess s")
       (auto simp: on_grace_timeout_def kill_def act_def stopFlaskServer_def)
  show "\<exists>s4. handle env s BeforeQuit = Inr s4"
    by (rule handle_total)
  show "flaskProcess s = None \<longrightarrow> actions (step env s BeforeQuit) = actions s
        \<and> graceTimers (step env s BeforeQuit) = graceTimers s
        \<and> flaskProcess (step env s BeforeQuit) = None"
    by (auto simp: step_def handle_def on_before_quit_def stopFlaskServer_def
        afterStartup_def split: promise.splits)
qed

theorem stopFlaskServer_idempotent_witness:
  "flaskProcess init_state = None \<and> stopFlaskServer init_state = Inr init_state
   \<and> actions (step example_env init_state BeforeQuit) = actions init_state
   \<and> (\<exists>s1 s2. stopFlaskServer (run example_env []) = Inr s1 \<and> stopFlaskServer s1 = Inr s2)
   \<and> stopFlaskServer (on_close (run example_env [BeforeQuit]) (Some 0)) =
       Inr (on_close (run example_env [BeforeQuit]) (Some 0))"
proof -
  have h: "flaskProcess init_state = None"
    by (simp add: init_state_def)
  show ?thesis
    using h stopFlaskServer_idempotent [of init_state "Some 0" example_env]
      stopFlaskServer_idempotent [of "run example_env []" "Some 0" example_env]
      stopFlaskServer_idempotent [of "run example_env [BeforeQuit]" "Some 0" example_env]
    by blast
qed

subsection \<open>Startup: fatal output on stderr\<close>

lemma step_resolved_started:
  assumes "(startup s = Resolved \<or> sigPoll s \<noteq> None) \<longrightarrow> serverStarted s"
  shows "(startup (step env s e) = Resolved \<or> sigPoll (step env s e) \<noteq> None)
           \<longrightarrow> serverStarted (step env s e)"
  using assms
  by (cases e)
     (auto simp: step_def handle_def handler_defs afterStartup_frame Let_def
        split: option.splits poll_status.splits promise.splits if_splits)

lemma whenReady_resolved_started:
  "(startup (whenReady env init_state) = Resolved \<or> sigPoll (whenReady env init_state) \<noteq> None)
     \<longrightarrow> serverStarted (whenReady env init_state)"
  by (auto simp: whenReady_def startFlaskServer_def afterStartup_frame reject_def act_def
      init_state_def Let_def split: sum.splits if_splits)

lemma run_resolved_started:
  "(startup (run env es) = Resolved \<or> sigPoll (run env es) \<noteq> None)
     \<longrightarrow> serverStarted (run env es)"
proof (induction es rule: rev_induct)
  case Nil
  show ?case by (simp add: run_def whenReady_resolved_started)
next
  case (snoc e es)
  show ?case
    unfolding run_snoc by (rule step_resolved_started) (rule snoc.IH)
qed

lemma step_stderr_fatal:
  assumes "listening s" "\<not> serverStarted s" "fatal output"
  shows "startup (step env s (Stderr output)) =
           (if startup s = Pending then Rejected (Error output) else startup s)"
    and "sigPoll (step env s (Stderr output)) = sigPoll s"
    and "fbPoll (step env s (Stderr output)) = fbPoll s"
    and "startupTimer (step env s (Stderr output)) = startupTimer s"
  using assms
  by (auto simp: step_def handle_def on_stderr_def reject_def afterStartup_frame)

lemma step_stderr_started:
  "serverStarted s \<Longrightarrow> step env s (Stderr output) = s"
  by (auto simp: step_def handle_def on_stderr_def afterStartup_def)

text \<open>
  Claim C3, as amended. While the child's listeners are live and no readiness substring
  has been seen on stdout (\<open>serverStarted\<close> is false, also during the fallback poll), a
  stderr chunk that contains a fatal substring rejects the startup promise in that very
  step, with an error whose message is the chunk: no timer and no probe is awaited, the
  pollers and the startup timer are left as they are. Once a readiness substring has
  been seen, a stderr chunk changes nothing.
\<close>

theorem fatal_stderr_short_circuit:
  "(listening (run env es) \<and> \<not> serverStarted (run env es) \<and> fatal output \<longrightarrow>
     (startup (run env es) = Pending \<longrightarrow>
        startup (run env (es @ [Stderr output])) = Rejected (Error output))
     \<and> (\<exists>err. startup (run env (es @ [Stderr output])) = Rejected err)
     \<and> sigPoll (run env (es @ [Stderr output])) = sigPoll (run env es)
     \<and> fbPoll (run env (es @ [Stderr output])) = fbPoll (run env es)
     \<and> startupTimer (run env (es @ [Stderr output])) = startupTimer (run env es))
   \<and> (serverStarted (run env es) \<longrightarrow> run env (es @ [Stderr output]) = run env es)"
proof (intro conjI impI)
  assume "serverStarted (run env es)"
  then show "run env (es @ [Stderr output]) = run env es"
    by (simp add: run_snoc step_stderr_started)
next
  assume h: "listening (run env es) \<and> \<not> serverStarted (run env es) \<and> fatal output"
  define s where "s = run env es"
  have a: "listening s" "\<not> serverStarted s" "fatal output"
    using h by (simp_all add: s_def)
  have nr: "startup s \<noteq> Resolved"
    using run_resolved_started [of env es] a(2) by (auto simp: s_def)
  have st: "startup (step env s (Stderr output)) =
           (if startup s = Pending then Rejected (Error output) else startup s)"
    using a by (rule step_stderr_fatal)
  have ex: "\<exists>err. startup (step env s (Stderr output)) = Rejected err"
    using nr by (cases "startup s") (simp_all add: st)
  show "\<exists>err. startup (run env (es @ [Stderr output])) = Rejected err"
    unfolding run_snoc s_def [symmetric] by (rule ex)
  show "sigPoll (run env (es @ [Stderr output])) = sigPoll (run env es)"
    unfolding run_snoc s_def [symmetric] using a by (rule step_stderr_fatal)
  show "fbPoll (run env (es @ [Stderr output])) = fbPoll (run env es)"
    unfolding run_snoc s_def [symmetric] using a by (rule step_stderr_fatal)
  show "startupTimer (run env (es @ [Stderr output])) = startupTimer (run env es)"
    unfolding run_snoc s_def [symmetric] using a by (rule step_stderr_fatal)
  assume "startup (run env es) = Pending"
  then show "startup (run env (es @ [Stderr output])) = Rejected (Error output)"
    unfolding run_snoc s_def [symmetric] using st by simp
qed

lemma includes_examples:
  "readySignature (js ''Running on x'')" "fatal (js ''Permission denied'')"
  "\<not> readySignature (js ''bye'')"
  by (simp_all add: readySignature_def fatal_def startsWith_def js_def)


lemma run_unfold:
  "run env [a] = step env (run env []) a"
  "run env [a, b] = step env (step env (run env []) a) b"
  "run env [a, b, c] = step env (step env (step env (run env []) a) b) c"
  by (simp_all add: run_def)

lemma example_signature_run:
  "listening (run example_env [Stdout (js ''Running on x'')])"
  "startup (run example_env [Stdout (js ''Running on x'')]) = Pending"
  "sigPoll (run example_env [Stdout (js ''Running on x'')]) = Some (checkFlaskServer 10 1000)"
  "serverStarted (run example_env [Stdout (js ''Running on x'')])"
  by (simp_all add: run_unfold step_def handle_def on_stdout_def afterStartup_def
      example_start includes_examples)

text \<open>
  The claim as stated fails after a readiness substring and before the probe answers:
  the fatal chunk is ignored and the run still reaches the resolved state.
\<close>

theorem fatal_stderr_after_signature_counterexample:
  "listening (run example_env [Stdout (js ''Running on x'')])
   \<and> startup (run example_env [Stdout (js ''Running on x'')]) = Pending
   \<and> fatal (js ''Permission denied'')
   \<and> startup (run example_env
         [Stdout (js ''Running on x''), Stderr (js ''Permission denied'')]) = Pending
   \<and> startup (run example_env
         [Stdout (js ''Running on x''), Stderr (js ''Permission denied''),
          SigPoll (Outcome (Response 200))]) = Resolved"
proof -
  define s where "s = run example_env [Stdout (js ''Running on x'')]"
  have a: "listening s" "startup s = Pending" "sigPoll s = Some (checkFlaskServer 10 1000)"
    "serverStarted s"
    by (simp_all add: s_def example_signature_run)
  define t where "t = step example_env s (Stderr (js ''Permission denied''))"
  have b: "startup t = Pending" "sigPoll t = Some (checkFlaskServer 10 1000)"
    by (simp_all add: t_def step_def handle_def on_stderr_def afterStartup_def a)
  have c: "startup (step example_env t (SigPoll (Outcome (Response 200)))) = Resolved"
    by (simp add: step_def handle_def on_sigPoll_def b settled_def checkFlaskServer_def
        check_def poller_step_def on_response_def poller_resolve_def resolve_def afterStartup_frame Let_def)
  have r2: "run example_env [Stdout (js ''Running on x''), Stderr (js ''Permission denied'')] = t"
    by (simp add: t_def s_def run_def)
  have r3: "run example_env [Stdout (js ''Running on x''), Stderr (js ''Permission denied''),
          SigPoll (Outcome (Response 200))] = step example_env t (SigPoll (Outcome (Response 200)))"
    by (simp add: t_def s_def run_def)
  show ?thesis
    unfolding r2 r3 using a b c by (simp add: s_def includes_examples)
qed

theorem fatal_stderr_short_circuit_witness:
  "listening (run example_env []) \<and> \<not> serverStarted (run example_env [])
   \<and> fatal (js ''Permission denied'') \<and> startup (run example_env []) = Pending
   \<and> startup (run example_env ([] @ [Stderr (js ''Permission denied'')])) =
       Rejected (Error (js ''Permission denied''))"
proof -
  have h: "listening (run example_env [])" "\<not> serverStarted (run example_env [])"
    "fatal (js ''Permission denied'')" "startup (run example_env []) = Pending"
    by (simp_all add: example_start includes_examples)
  show ?thesis
    using h fatal_stderr_short_circuit [of example_env "[]" "js ''Permission denied''"]
    by blast
qed

subsection \<open>Startup: the timeout fallback\<close>

text \<open>
  The events of the fallback poller among a list of events; the events that settle the
  startup promise from outside the fallback poller (a readiness substring on stdout, a
  fatal chunk on stderr, an \<open>error\<close> event of the child); what the \<open>then\<close> and \<open>catch\<close>
  callbacks of the fallback path make of the poller's status.
\<close>

fun fbEvents :: "event list \<Rightarrow> poller_event list" where
  "fbEvents [] = []"
| "fbEvents (FbPoll pe # es) = pe # fbEvents es"
| "fbEvents (e # es) = fbEvents es"

definition interferes :: "event \<Rightarrow> bool" where
  "interferes e =
     (case e of
        Stdout output \<Rightarrow> readySignature output
      | Stderr output \<Rightarrow> fatal output
      | ProcError err \<Rightarrow> True
      | _ \<Rightarrow> False)"

definition fbVerdict :: "poller \<Rightarrow> js_error promise" where
  "fbVerdict p =
     (case status p of
        ResolvedTrue \<Rightarrow> Resolved
      | RejectedWith err \<Rightarrow> Rejected (Error (js ''Flask server did not start in time''))
      | _ \<Rightarrow> Pending)"

lemma fallback_step:
  assumes "fbPoll s = Some p" "sigPoll s = None" "startup s = fbVerdict p"
    "\<not> startupTimer s" "\<not> interferes e"
  shows "fbPoll (step env s e) = Some (case e of FbPoll pe \<Rightarrow> poller_step p pe | _ \<Rightarrow> p)
    \<and> sigPoll (step env s e) = None \<and> \<not> startupTimer (step env s e)
    \<and> startup (step env s e) = fbVerdict (case e of FbPoll pe \<Rightarrow> poller_step p pe | _ \<Rightarrow> p)"
proof (cases e)
  case (FbPoll pe)
  show ?thesis
  proof (cases "settled p")
    case True
    then show ?thesis
      using assms
      by (auto simp: FbPoll step_def handle_def on_fbPoll_def poller_status_stable
          afterStartup_frame fbVerdict_def Let_def)
  next
    case False
    then have pend: "startup s = Pending"
      using assms(3) by (auto simp: fbVerdict_def settled_def split: poll_status.splits)
    show ?thesis
      using assms(1,2,4) False pend
      by (auto simp: FbPoll step_def handle_def on_fbPoll_def afterStartup_frame Let_def
          fbVerdict_def resolve_def reject_def split: poll_status.splits)
  qed
qed (use assms in \<open>auto simp: step_def handle_def handler_defs afterStartup_frame Let_def
        interferes_def split: option.splits promise.splits\<close>)

lemma fallback_run:
  assumes "fbPoll s = Some p" "sigPoll s = None" "startup s = fbVerdict p"
    "\<not> startupTimer s" "\<forall>e \<in> set es. \<not> interferes e"
  shows "fbPoll (foldl (step env) s es) = Some (foldl poller_step p (fbEvents es))
    \<and> startup (foldl (step env) s es) = fbVerdict (foldl poller_step p (fbEvents es))"
  using assms
proof (induction es arbitrary: s p)
  case Nil
  then show ?case by simp
next
  case (Cons e es)
  define q where "q = (case e of FbPoll pe \<Rightarrow> poller_step p pe | _ \<Rightarrow> p)"
  have ni: "\<not> interferes e" and rest: "\<forall>e \<in> set es. \<not> interferes e"
    using Cons.prems(5) by auto
  note st = fallback_step [OF Cons.prems(1-4) ni, of env, folded q_def]
  have ih: "fbPoll (foldl (step env) (step env s e) es) = Some (foldl poller_step q (fbEvents es))
    \<and> startup (foldl (step env) (step env s e) es) = fbVerdict (foldl poller_step q (fbEvents es))"
    using st rest by (intro Cons.IH) auto
  have "foldl poller_step p (fbEvents (e # es)) = foldl poller_step q (fbEvents es)"
    by (cases e) (simp_all add: q_def)
  then show ?case
    using ih by simp
qed


lemma step_startup_timeout:
  assumes "startupTimer s" "\<not> serverStarted s" "startup s = Pending"
  shows "startup (step env s StartupTimeout) = Pending"
    and "fbPoll (step env s StartupTimeout) = Some (checkFlaskServer 5 1000)"
    and "sigPoll (step env s StartupTimeout) = sigPoll s"
    and "\<not> startupTimer (step env s StartupTimeout)"
  using assms
  by (simp_all add: step_def handle_def on_startup_timeout_def afterStartup_def)

text \<open>
  Claim C5, as amended. When the 15000 ms timer fires with no readiness substring seen
  and the startup promise still pending, the promise stays pending and
  \<open>checkFlaskServer(5, 1000)\<close> is started; it issues at most 5 requests. If the events
  that follow contain no readiness substring on stdout, no fatal chunk on stderr and no
  \<open>error\<close> event of the child, the startup promise follows the promise of the fallback
  poller alone: resolved when the poller resolves, which takes a response with status
  200, and rejected with \<open>Flask server did not start in time\<close> when the poller rejects.
  When each of five or more probes ends in one response or one connection error, none
  in a timeout, the run succeeds if and only if one of the first five is a response
  with status 200.
\<close>

theorem startup_timeout_fallback:
  "startupTimer (run env es0) \<and> \<not> serverStarted (run env es0)
     \<and> startup (run env es0) = Pending \<and> (\<forall>e \<in> set es. \<not> interferes e) \<longrightarrow>
   startup (run env (es0 @ [StartupTimeout])) = Pending
   \<and> fbPoll (run env (es0 @ [StartupTimeout])) = Some (checkFlaskServer 5 1000)
   \<and> fbPoll (run env (es0 @ StartupTimeout # es)) =
       Some (foldl poller_step (checkFlaskServer 5 1000) (fbEvents es))
   \<and> startup (run env (es0 @ StartupTimeout # es)) =
       fbVerdict (foldl poller_step (checkFlaskServer 5 1000) (fbEvents es))
   \<and> requests (foldl poller_step (checkFlaskServer 5 1000) (fbEvents es)) \<le> 5
   \<and> (startup (run env (es0 @ StartupTimeout # es)) = Resolved \<longrightarrow>
        Outcome (Response 200) \<in> set (fbEvents es))
   \<and> (fbEvents es = concat (map (\<lambda>oc. [Outcome oc, RetryTimer]) ocs) \<and> 5 \<le> length ocs
        \<and> ReqTimeout \<notin> set ocs \<longrightarrow>
        startup (run env (es0 @ StartupTimeout # es)) =
          (if Response 200 \<in> set (take 5 ocs) then Resolved
           else Rejected (Error (js ''Flask server did not start in time''))))"
proof (intro impI)
  assume h: "startupTimer (run env es0) \<and> \<not> serverStarted (run env es0)
     \<and> startup (run env es0) = Pending \<and> (\<forall>e \<in> set es. \<not> interferes e)"
  define s where "s = run env es0"
  define s1 where "s1 = step env s StartupTimeout"
  define P where "P = foldl poller_step (checkFlaskServer 5 1000) (fbEvents es)"
  have a: "startupTimer s" "\<not> serverStarted s" "startup s = Pending"
    and ni: "\<forall>e \<in> set es. \<not> interferes e"
    using h by (simp_all add: s_def)
  have sp: "sigPoll s = None"
    using run_resolved_started [of env es0] a(2) by (auto simp: s_def)
  have b: "startup s1 = Pending" "fbPoll s1 = Some (checkFlaskServer 5 1000)"
    "sigPoll s1 = None" "\<not> startupTimer s1"
    unfolding s1_def using step_startup_timeout [OF a, of env] sp by simp_all
  have v0: "startup s1 = fbVerdict (checkFlaskServer 5 1000)"
    by (simp add: b fbVerdict_def checkFlaskServer_def check_def)
  have r1: "run env (es0 @ [StartupTimeout]) = s1"
    by (simp add: run_snoc s1_def s_def)
  have r2: "run env (es0 @ StartupTimeout # es) = foldl (step env) s1 es"
    by (simp add: run_def s1_def s_def)
  have c: "fbPoll (foldl (step env) s1 es) = Some P"
    "startup (foldl (step env) s1 es) = fbVerdict P"
    unfolding P_def using fallback_run [OF b(2,3) v0 b(4) ni, of env] by simp_all
  have d: "requests P \<le> 5"
    unfolding P_def using poller_requests_bound [of 5 1000 "fbEvents es"] by simp
  have e: "fbVerdict P = Resolved \<longrightarrow> Outcome (Response 200) \<in> set (fbEvents es)"
  proof
    assume "fbVerdict P = Resolved"
    then have "status P = ResolvedTrue"
      by (auto simp: fbVerdict_def split: poll_status.splits)
    then show "Outcome (Response 200) \<in> set (fbEvents es)"
      unfolding P_def
      by (rule poller_run_resolves) (simp add: checkFlaskServer_def check_def)
  qed
  have f: "fbEvents es = concat (map (\<lambda>oc. [Outcome oc, RetryTimer]) ocs) \<and> 5 \<le> length ocs
        \<and> ReqTimeout \<notin> set ocs \<longrightarrow>
        fbVerdict P =
          (if Response 200 \<in> set (take 5 ocs) then Resolved
           else Rejected (Error (js ''Flask server did not start in time'')))"
  proof
    assume g: "fbEvents es = concat (map (\<lambda>oc. [Outcome oc, RetryTimer]) ocs) \<and> 5 \<le> length ocs
        \<and> ReqTimeout \<notin> set ocs"
    then have "P = attempts (checkFlaskServer 5 1000) ocs"
      by (simp add: P_def attempts_as_events)
    then have "status P =
       (if Response 200 \<in> set (take 5 ocs) then ResolvedTrue
        else RejectedWith (Error (js ''Flask server did not respond in time'')))"
      using g checkFlaskServer_verdict [of 5 ocs 1000] by (simp del: if_split)
    then show "fbVerdict P =
          (if Response 200 \<in> set (take 5 ocs) then Resolved
           else Rejected (Error (js ''Flask server did not start in time'')))"
      by (simp add: fbVerdict_def)
  qed
  show "startup (run env (es0 @ [StartupTimeout])) = Pending
   \<and> fbPoll (run env (es0 @ [StartupTimeout])) = Some (checkFlaskServer 5 1000)
   \<and> fbPoll (run env (es0 @ StartupTimeout # es)) =
       Some (foldl poller_step (checkFlaskServer 5 1000) (fbEvents es))
   \<and> startup (run env (es0 @ StartupTimeout # es)) =
       fbVerdict (foldl poller_step (checkFlaskServer 5 1000) (fbEvents es))
   \<and> requests (foldl poller_step (checkFlaskServer 5 1000) (fbEvents es)) \<le> 5
   \<and> (startup (run env (es0 @ StartupTimeout # es)) = Resolved \<longrightarrow>
        Outcome (Response 200) \<in> set (fbEvents es))
   \<and> (fbEvents es = concat (map (\<lambda>oc. [Outcome oc, RetryTimer]) ocs) \<and> 5 \<le> length ocs
        \<and> ReqTimeout \<notin> set ocs \<longrightarrow>
        startup (run env (es0 @ StartupTimeout # es)) =
          (if Response 200 \<in> set (take 5 ocs) then Resolved
           else Rejected (Error (js ''Flask server did not start in time''))))"
    unfolding r1 r2 P_def [symmetric] using b c d e f by simp
qed


theorem startup_timeout_fallback_witness:
  "startupTimer (run example_env []) \<and> \<not> serverStarted (run example_env [])
   \<and> startup (run example_env []) = Pending
   \<and> fbPoll (run example_env ([] @ [StartupTimeout])) = Some (checkFlaskServer 5 1000)
   \<and> startup (run example_env ([] @ StartupTimeout #
         [FbPoll (Outcome ReqError), FbPoll RetryTimer, FbPoll (Outcome (Response 200)),
          FbPoll RetryTimer, FbPoll (Outcome ReqError), FbPoll RetryTimer,
          FbPoll (Outcome ReqError), FbPoll RetryTimer, FbPoll (Outcome ReqError),
          FbPoll RetryTimer])) = Resolved
   \<and> startup (run example_env ([] @ StartupTimeout #
         [FbPoll (Outcome ReqError), FbPoll RetryTimer, FbPoll (Outcome (Response 503)),
          FbPoll RetryTimer, FbPoll (Outcome (Response 204)), FbPoll RetryTimer,
          FbPoll (Outcome ReqError), FbPoll RetryTimer, FbPoll (Outcome ReqError),
          FbPoll RetryTimer])) = Rejected (Error (js ''Flask server did not start in time''))"
proof -
  define es1 where "es1 =
         [FbPoll (Outcome ReqError), FbPoll RetryTimer, FbPoll (Outcome (Response 200)),
          FbPoll RetryTimer, FbPoll (Outcome ReqError), FbPoll RetryTimer,
          FbPoll (Outcome ReqError), FbPoll RetryTimer, FbPoll (Outcome ReqError),
          FbPoll RetryTimer]"
  define es2 where "es2 =
         [FbPoll (Outcome ReqError), FbPoll RetryTimer, FbPoll (Outcome (Response 503)),
          FbPoll RetryTimer, FbPoll (Outcome (Response 204)), FbPoll RetryTimer,
          FbPoll (Outcome ReqError), FbPoll RetryTimer, FbPoll (Outcome ReqError),
          FbPoll RetryTimer]"
  define ocs1 where "ocs1 = [ReqError, Response 200, ReqError, ReqError, ReqError]"
  define ocs2 where "ocs2 = [ReqError, Response 503, Response 204, ReqError, ReqError]"
  have h: "startupTimer (run example_env []) \<and> \<not> serverStarted (run example_env [])
     \<and> startup (run example_env []) = Pending"
    by (simp add: example_start)
  have g: "\<forall>e \<in> set es1. \<not> interferes e" "\<forall>e \<in> set es2. \<not> interferes e"
    by (simp_all add: es1_def es2_def interferes_def)
  have k: "fbEvents es1 = concat (map (\<lambda>oc. [Outcome oc, RetryTimer]) ocs1) \<and> 5 \<le> length ocs1
      \<and> ReqTimeout \<notin> set ocs1"
    "fbEvents es2 = concat (map (\<lambda>oc. [Outcome oc, RetryTimer]) ocs2) \<and> 5 \<le> length ocs2
      \<and> ReqTimeout \<notin> set ocs2"
    by (simp_all add: es1_def es2_def ocs1_def ocs2_def)
  have m: "Response 200 \<in> set (take 5 ocs1)" "Response 200 \<notin> set (take 5 ocs2)"
    by (simp_all add: ocs1_def ocs2_def)
  have t1: "fbPoll (run example_env ([] @ [StartupTimeout])) = Some (checkFlaskServer 5 1000)
     \<and> startup (run example_env ([] @ StartupTimeout # es1)) =
          (if Response 200 \<in> set (take 5 ocs1) then Resolved
           else Rejected (Error (js ''Flask server did not start in time'')))"
    using h g(1) k(1) startup_timeout_fallback [of example_env "[]" es1 ocs1] by blast
  have t2: "startup (run example_env ([] @ StartupTimeout # es2)) =
          (if Response 200 \<in> set (take 5 ocs2) then Resolved
           else Rejected (Error (js ''Flask server did not start in time'')))"
    using h g(2) k(2) startup_timeout_fallback [of example_env "[]" es2 ocs2] by blast
  show ?thesis
    using h t1 t2 m unfolding es1_def es2_def by simp
qed

text \<open>
  The claim as stated fails in both directions. A fatal stderr chunk before the timer
  fails the run, the timer still starts the fallback poller, and its probe succeeds
  while the run stays failed. A readiness substring after the timer starts the second
  poller, whose probe makes the run succeed while no fallback probe has succeeded.
\<close>

theorem startup_timeout_fallback_counterexample:
  "startup (run example_env [Stderr (js ''Permission denied''), StartupTimeout]) =
       Rejected (Error (js ''Permission denied''))
   \<and> fbPoll (run example_env [Stderr (js ''Permission denied''), StartupTimeout]) =
       Some (checkFlaskServer 5 1000)
   \<and> map_option status (fbPoll (run example_env
         [Stderr (js ''Permission denied''), StartupTimeout, FbPoll (Outcome (Response 200))])) =
       Some ResolvedTrue
   \<and> startup (run example_env
         [Stderr (js ''Permission denied''), StartupTimeout, FbPoll (Outcome (Response 200))]) =
       Rejected (Error (js ''Permission denied''))
   \<and> map_option status (fbPoll (run example_env
         [StartupTimeout, Stdout (js ''Running on x''), SigPoll (Outcome (Response 200))])) =
       Some Polling
   \<and> startup (run example_env
         [StartupTimeout, Stdout (js ''Running on x''), SigPoll (Outcome (Response 200))]) =
       Resolved"
proof -
  define s where "s = run example_env []"
  have s0: "listening s" "\<not> serverStarted s" "startup s = Pending" "startupTimer s"
    "sigPoll s = None" "fbPoll s = None"
    by (simp_all add: s_def example_start)
  define a1 where "a1 = step example_env s (Stderr (js ''Permission denied''))"
  have a1: "startup a1 = Rejected (Error (js ''Permission denied''))" "startupTimer a1"
    "\<not> serverStarted a1" "listening a1"
    by (simp_all add: a1_def step_def handle_def on_stderr_def reject_def afterStartup_frame
        s0 includes_examples)
  define a2 where "a2 = step example_env a1 StartupTimeout"
  have a2: "startup a2 = Rejected (Error (js ''Permission denied''))"
    "fbPoll a2 = Some (checkFlaskServer 5 1000)"
    by (simp_all add: a2_def step_def handle_def on_startup_timeout_def a1)
  define a3 where "a3 = step example_env a2 (FbPoll (Outcome (Response 200)))"
  have a3: "startup a3 = Rejected (Error (js ''Permission denied''))"
    "map_option status (fbPoll a3) = Some ResolvedTrue"
    by (simp_all add: a3_def step_def handle_def on_fbPoll_def a2 settled_def
        checkFlaskServer_def check_def poller_step_def on_response_def poller_resolve_def resolve_def Let_def)
  define b1 where "b1 = step example_env s StartupTimeout"
  have b1: "startup b1 = Pending" "fbPoll b1 = Some (checkFlaskServer 5 1000)"
    "\<not> serverStarted b1" "listening b1" "sigPoll b1 = None"
    by (simp_all add: b1_def step_def handle_def on_startup_timeout_def afterStartup_def s0)
  define b2 where "b2 = step example_env b1 (Stdout (js ''Running on x''))"
  have b2: "startup b2 = Pending" "fbPoll b2 = Some (checkFlaskServer 5 1000)"
    "sigPoll b2 = Some (checkFlaskServer 10 1000)"
    by (simp_all add: b2_def step_def handle_def on_stdout_def afterStartup_def b1
        includes_examples)
  define b3 where "b3 = step example_env b2 (SigPoll (Outcome (Response 200)))"
  have b3: "startup b3 = Resolved" "map_option status (fbPoll b3) = Some Polling"
    by (simp_all add: b3_def step_def handle_def on_sigPoll_def b2 settled_def
        checkFlaskServer_def check_def poller_step_def on_response_def poller_resolve_def resolve_def
        afterStartup_frame Let_def)
  have r: "run example_env [Stderr (js ''Permission denied''), StartupTimeout] = a2"
    "run example_env
       [Stderr (js ''Permission denied''), StartupTimeout, FbPoll (Outcome (Response 200))] = a3"
    "run example_env
       [StartupTimeout, Stdout (js ''Running on x''), SigPoll (Outcome (Response 200))] = b3"
    by (simp_all add: run_def a3_def a2_def a1_def b3_def b2_def b1_def s_def)
  show ?thesis
    unfolding r using a2 a3 b3 by simp
qed

subsection \<open>The port check\<close>

text \<open>
  A state in which nothing has been started: no child, no timer, no poller, no window,
  the startup promise pending.
\<close>

definition dormant :: "app_state \<Rightarrow> bool" where
  "dormant s =
     (flaskProcess s = None \<and> \<not> listening s \<and> \<not> startupTimer s \<and> graceTimers s = 0
      \<and> sigPoll s = None \<and> fbPoll s = None \<and> mainWindow s = None \<and> \<not> activateHandler s
      \<and> startup s = Pending)"

lemma step_dormant:
  "dormant s \<Longrightarrow> dormant (step env s e) \<and> actions (step env s e) = actions s"
  by (cases e)
     (auto simp: dormant_def step_def handle_def on_fbPoll_def on_sigPoll_def
        on_before_quit_def stopFlaskServer_def afterStartup_def)

lemma run_dormant:
  "dormant s \<Longrightarrow> dormant (foldl (step env) s es) \<and> actions (foldl (step env) s es) = actions s"
proof (induction es arbitrary: s)
  case Nil
  then show ?case by simp
next
  case (Cons e es)
  then show ?case
    using step_dormant [of s env e] by simp
qed

lemma afterStartup_actions: "\<exists>as. actions (afterStartup env s) = actions s @ as"
  by (auto simp: afterStartup_def windowAndTray_def createWindow_def act_def Let_def
      split: promise.splits)

lemma handle_actions: "handle env s e = Inr s1 \<Longrightarrow> \<exists>as. actions s1 = actions s @ as"
  by (cases e)
     (auto simp: handle_def handler_defs Let_def
        split: option.splits poll_status.splits promise.splits if_splits)

lemma step_actions: "\<exists>as. actions (step env s e) = actions s @ as"
proof (cases "handle env s e")
  case (Inl err)
  then show ?thesis by (simp add: step_def act_def)
next
  case (Inr s1)
  obtain as where a: "actions s1 = actions s @ as"
    using handle_actions [OF Inr] by blast
  obtain bs where b: "actions (afterStartup env s1) = actions s1 @ bs"
    using afterStartup_actions by blast
  show ?thesis
    using a b by (simp add: step_def Inr)
qed

lemma run_actions_prefix:
  "\<exists>as. actions (foldl (step env) s es) = actions s @ as"
proof (induction es arbitrary: s)
  case Nil
  show ?case by simp
next
  case (Cons e es)
  obtain as where a: "actions (step env s e) = actions s @ as"
    using step_actions by blast
  obtain bs where b: "actions (foldl (step env) (step env s e) es) = actions (step env s e) @ bs"
    using Cons.IH by blast
  show ?case
    using a b by simp
qed

lemma startFlaskServer_actions: "\<exists>as. actions (startFlaskServer env s) = actions s @ as"
  by (auto simp: startFlaskServer_def reject_def act_def Let_def split: sum.splits)

lemma whenReady_occupied:
  assumes "portListen env = ListenError code"
  shows "\<exists>as. actions (whenReady env init_state) = PortDialog # as"
proof (cases "portChoice env = 0")
  case True
  then show ?thesis
    using assms by (simp add: whenReady_def isPortAvailable_def act_def init_state_def)
next
  case False
  define s1 where "s1 = act [PortDialog] init_state"
  obtain as where a: "actions (startFlaskServer env s1) = actions s1 @ as"
    using startFlaskServer_actions by blast
  obtain bs where b: "actions (afterStartup env (startFlaskServer env s1)) =
      actions (startFlaskServer env s1) @ bs"
    using afterStartup_actions by blast
  have "whenReady env init_state = afterStartup env (startFlaskServer env s1)"
    using assms False by (simp add: whenReady_def isPortAvailable_def s1_def)
  then show ?thesis
    using a b by (simp add: s1_def act_def init_state_def)
qed

text \<open>
  Claim C4, as amended. When the probe server of \<open>isPortAvailable\<close> emits \<open>error\<close> (the
  address is held by another listener), the check resolves false and the first thing
  the ready handler does is to show the port dialog. If the user chooses button 0
  (\<open>Quitter\<close>), the application quits and, whatever events follow, nothing else is ever
  done: no child is spawned. If the user chooses the other button (\<open>Reessayer\<close>), the
  handler goes on to \<open>startFlaskServer\<close> without checking the port again.
\<close>

theorem port_occupied_dialog_before_spawn:
  "portListen env = ListenError code \<longrightarrow>
     \<not> isPortAvailable (portListen env)
     \<and> (\<exists>as. actions (run env es) = PortDialog # as)
     \<and> (portChoice env = 0 \<longrightarrow>
          actions (run env es) = [PortDialog, AppQuit] \<and> flaskProcess (run env es) = None)
     \<and> (portChoice env \<noteq> 0 \<longrightarrow>
          run env [] = afterStartup env (startFlaskServer env (act [PortDialog] init_state)))"
proof (intro impI conjI)
  assume h: "portListen env = ListenError code"
  show "\<not> isPortAvailable (portListen env)"
    by (simp add: h isPortAvailable_def)
  obtain as where a: "actions (whenReady env init_state) = PortDialog # as"
    using whenReady_occupied [OF h] by blast
  obtain bs where "actions (run env es) = actions (whenReady env init_state) @ bs"
    unfolding run_def using run_actions_prefix by blast
  then show "\<exists>as. actions (run env es) = PortDialog # as"
    by (simp add: a)
next
  assume h: "portListen env = ListenError code" and q: "portChoice env = 0"
  have w: "whenReady env init_state = act [AppQuit] (act [PortDialog] init_state)"
    using h q by (simp add: whenReady_def isPortAvailable_def)
  have d: "dormant (whenReady env init_state)"
    unfolding w by (simp add: dormant_def act_def init_state_def)
  have "actions (run env es) = actions (whenReady env init_state)"
    unfolding run_def using run_dormant [OF d] by simp
  then show "actions (run env es) = [PortDialog, AppQuit]"
    unfolding w by (simp add: act_def init_state_def)
  have "dormant (run env es)"
    unfolding run_def using run_dormant [OF d] by simp
  then show "flaskProcess (run env es) = None"
    by (simp add: dormant_def)
next
  assume h: "portListen env = ListenError code" and q: "portChoice env \<noteq> 0"
  show "run env [] = afterStartup env (startFlaskServer env (act [PortDialog] init_state))"
    using h q by (simp add: run_def whenReady_def isPortAvailable_def)
qed


text \<open>
  The claim as stated fails when the user chooses the second button: the port check has
  reported the port occupied and the backend is spawned all the same.
\<close>

theorem port_occupied_retry_spawns_counterexample:
  "\<not> isPortAvailable
       (portListen (example_env\<lparr>portListen := ListenError (js ''EADDRINUSE''), portChoice := 1\<rparr>))
   \<and> actions (run (example_env\<lparr>portListen := ListenError (js ''EADDRINUSE''), portChoice := 1\<rparr>)
         []) =
       [PortDialog, Spawn (js ''python3'') [js ''/app/api_server.py''], SetTimer 15000]
   \<and> flaskProcess
         (run (example_env\<lparr>portListen := ListenError (js ''EADDRINUSE''), portChoice := 1\<rparr>) [])
       \<noteq> None"
proof -
  define env where
    "env = example_env\<lparr>portListen := ListenError (js ''EADDRINUSE''), portChoice := 1\<rparr>"
  have p: "getPythonPath env = Inr (js ''python3'')"
    by (simp add: env_def example_env_def getPythonPath_def js_def)
  have e: "portListen env = ListenError (js ''EADDRINUSE'')" "portChoice env = 1"
    "scriptExists env" "flaskScriptPath env = js ''/app/api_server.py''"
    by (simp_all add: env_def example_env_def)
  have a: "actions (run env []) =
       [PortDialog, Spawn (js ''python3'') [js ''/app/api_server.py''], SetTimer 15000]"
    by (simp add: run_def whenReady_def isPortAvailable_def startFlaskServer_def p e
        getFlaskScriptPath_def afterStartup_def act_def init_state_def Let_def)
  have b: "flaskProcess (run env []) \<noteq> None"
    by (simp add: run_def whenReady_def isPortAvailable_def startFlaskServer_def p e
        getFlaskScriptPath_def afterStartup_def act_def init_state_def Let_def)
  show ?thesis
    unfolding env_def [symmetric] using a b by (simp add: e isPortAvailable_def)
qed

theorem port_occupied_dialog_before_spawn_witness:
  "portListen (example_env\<lparr>portListen := ListenError (js ''EADDRINUSE'')\<rparr>) =
       ListenError (js ''EADDRINUSE'')
   \<and> portChoice (example_env\<lparr>portListen := ListenError (js ''EADDRINUSE'')\<rparr>) = 0
   \<and> \<not> isPortAvailable (portListen (example_env\<lparr>portListen := ListenError (js ''EADDRINUSE'')\<rparr>))
   \<and> actions (run (example_env\<lparr>portListen := ListenError (js ''EADDRINUSE'')\<rparr>)
         [BeforeQuit, GraceTimeout]) = [PortDialog, AppQuit]
   \<and> portChoice (example_env\<lparr>portListen := ListenError (js ''EADDRINUSE''), portChoice := 1\<rparr>)
       \<noteq> 0
   \<and> run (example_env\<lparr>portListen := ListenError (js ''EADDRINUSE''), portChoice := 1\<rparr>) [] =
       afterStartup
         (example_env\<lparr>portListen := ListenError (js ''EADDRINUSE''), portChoice := 1\<rparr>)
         (startFlaskServer
           (example_env\<lparr>portListen := ListenError (js ''EADDRINUSE''), portChoice := 1\<rparr>)
           (act [PortDialog] init_state))"
proof -
  define env0 where "env0 = example_env\<lparr>portListen := ListenError (js ''EADDRINUSE'')\<rparr>"
  define env1 where "env1 = env0\<lparr>portChoice := 1\<rparr>"
  have h: "portListen env0 = ListenError (js ''EADDRINUSE'')" "portChoice env0 = 0"
    "portListen env1 = ListenError (js ''EADDRINUSE'')" "portChoice env1 \<noteq> 0"
    by (simp_all add: env0_def env1_def example_env_def)
  show ?thesis
    unfolding env0_def [symmetric] unfolding env1_def [symmetric]
    using h port_occupied_dialog_before_spawn [of env0 "js ''EADDRINUSE''" "[BeforeQuit, GraceTimeout]"]
      port_occupied_dialog_before_spawn [of env1 "js ''EADDRINUSE''" "[]"]
    by blast
qed

subsection \<open>The readiness notification\<close>

text \<open>
  The number of \<open>flask-server-ready\<close> messages sent and of main windows created; whether
  a window awaits its \<open>ready-to-show\<close>; and whether the ready handler has gone past the
  startup: the promise resolved, or rejected with the user choosing to continue.
\<close>

fun sent :: "action list \<Rightarrow> nat" where
  "sent [] = 0"
| "sent (SendReady url host port # as) = Suc (sent as)"
| "sent (a # as) = sent as"

definition created :: "action list \<Rightarrow> nat" where
  "created as = count_list as CreateWindow"

definition awaitingShow :: "app_state \<Rightarrow> nat" where
  "awaitingShow s = (if mainWindow s = Some False then 1 else 0)"

definition continued :: "environment \<Rightarrow> app_state \<Rightarrow> bool" where
  "continued env s =
     (startup s = Resolved \<or> (\<exists>err. startup s = Rejected err \<and> failChoice env \<noteq> 0))"

lemma sent_append: "sent (xs @ ys) = sent xs + sent ys"
  by (induction xs rule: sent.induct) simp_all

lemma created_append: "created (xs @ ys) = created xs + created ys"
  by (induction xs) (simp_all add: created_def)

lemma step_sent_created:
  "sent (actions s) + awaitingShow s \<le> created (actions s) \<Longrightarrow>
     sent (actions (step env s e)) + awaitingShow (step env s e)
       \<le> created (actions (step env s e))"
  by (cases e)
     (auto simp: step_def handle_def handler_defs Let_def awaitingShow_def sent_append
        created_append created_def
        split: option.splits poll_status.splits promise.splits if_splits)


lemma step_startup_stable:
  "startup s \<noteq> Pending \<Longrightarrow> startup (step env s e) = startup s"
  by (cases e)
     (auto simp: step_def handle_def handler_defs Let_def
        split: option.splits poll_status.splits promise.splits if_splits)

lemma continued_stable: "continued env s \<Longrightarrow> continued env (step env s e)"
  using step_startup_stable [of s env e] by (auto simp: continued_def)

lemma afterStartup_window:
  "startup s \<noteq> Pending \<Longrightarrow> \<not> continued env s \<Longrightarrow>
     mainWindow (afterStartup env s) = mainWindow s
     \<and> activateHandler (afterStartup env s) = activateHandler s
     \<and> created (actions (afterStartup env s)) = created (actions s)"
  by (auto simp: afterStartup_def continued_def act_def created_append created_def Let_def
      split: promise.splits)

lemma handle_window:
  assumes "handle env s e = Inr s1" "mainWindow s = None" "\<not> activateHandler s"
    "created (actions s) = 0"
  shows "mainWindow s1 = None \<and> \<not> activateHandler s1 \<and> created (actions s1) = 0"
  using assms
  by (cases e)
     (auto simp: handle_def handler_defs Let_def created_append created_def
        split: option.splits poll_status.splits promise.splits if_splits)

lemma step_continued:
  assumes "(mainWindow s \<noteq> None \<or> activateHandler s \<or> 0 < created (actions s))
      \<longrightarrow> continued env s"
  shows "(mainWindow (step env s e) \<noteq> None \<or> activateHandler (step env s e)
      \<or> 0 < created (actions (step env s e))) \<longrightarrow> continued env (step env s e)"
proof (cases "continued env s")
  case True
  then show ?thesis by (simp add: continued_stable)
next
  case False
  then have n: "mainWindow s = None" "\<not> activateHandler s" "created (actions s) = 0"
    using assms by auto
  obtain s1 where h: "handle env s e = Inr s1"
    using handle_total by blast
  have n1: "mainWindow s1 = None" "\<not> activateHandler s1" "created (actions s1) = 0"
    using handle_window [OF h n] by simp_all
  show ?thesis
  proof (cases "startup s = Pending")
    case True
    then have st: "step env s e = afterStartup env s1"
      by (simp add: step_def h)
    show ?thesis
    proof (cases "continued env s1")
      case True
      then show ?thesis
        by (simp add: st continued_def afterStartup_frame)
    next
      case False
      show ?thesis
      proof (cases "startup s1 = Pending")
        case True
        then show ?thesis
          using n1 by (simp add: st afterStartup_def)
      next
        case np: False
        then show ?thesis
          using afterStartup_window [OF np False] n1 by (simp add: st)
      qed
    qed
  next
    case False
    then have "step env s e = s1"
      by (simp add: step_def h)
    then show ?thesis
      using n1 by simp
  qed
qed

lemma step_once:
  assumes "e \<noteq> Activate" "created (actions s) \<le> 1"
    "startup s = Pending \<longrightarrow> created (actions s) = 0"
  shows "created (actions (step env s e)) \<le> 1
    \<and> (startup (step env s e) = Pending \<longrightarrow> created (actions (step env s e)) = 0)"
  using assms
  by (cases e)
     (auto simp: step_def handle_def handler_defs Let_def created_append created_def
        split: option.splits poll_status.splits promise.splits if_splits)

lemma step_resolved_by_probe:
  assumes "(startup s = Resolved \<or> sigPoll s \<noteq> None) \<longrightarrow> serverStarted s"
    "startup s = Resolved \<longrightarrow>
       (\<exists>p. (sigPoll s = Some p \<or> fbPoll s = Some p) \<and> status p = ResolvedTrue)"
  shows "startup (step env s e) = Resolved \<longrightarrow>
       (\<exists>p. (sigPoll (step env s e) = Some p \<or> fbPoll (step env s e) = Some p)
          \<and> status p = ResolvedTrue)"
  using assms
  by (cases e)
     (auto simp: step_def handle_def handler_defs afterStartup_frame Let_def
        poller_status_stable settled_def
        split: option.splits poll_status.splits promise.splits if_splits)


lemmas whenReady_defs =
  whenReady_def isPortAvailable_def startFlaskServer_def afterStartup_def windowAndTray_def
  createWindow_def reject_def act_def init_state_def

lemma whenReady_window:
  "sent (actions (whenReady env init_state)) + awaitingShow (whenReady env init_state)
     \<le> created (actions (whenReady env init_state))"
  "(mainWindow (whenReady env init_state) \<noteq> None \<or> activateHandler (whenReady env init_state)
      \<or> 0 < created (actions (whenReady env init_state)))
     \<longrightarrow> continued env (whenReady env init_state)"
  "created (actions (whenReady env init_state)) \<le> 1"
  "startup (whenReady env init_state) = Pending
     \<longrightarrow> created (actions (whenReady env init_state)) = 0"
  "startup (whenReady env init_state) \<noteq> Resolved"
  by (auto simp: whenReady_defs Let_def awaitingShow_def created_def continued_def
      split: sum.splits listen_outcome.splits if_splits)

lemma run_sent_created:
  "sent (actions (run env es)) + awaitingShow (run env es) \<le> created (actions (run env es))"
proof (induction es rule: rev_induct)
  case Nil
  show ?case by (simp add: run_def whenReady_window)
next
  case (snoc e es)
  show ?case
    unfolding run_snoc by (rule step_sent_created) (rule snoc.IH)
qed

lemma run_continued:
  "(mainWindow (run env es) \<noteq> None \<or> activateHandler (run env es)
      \<or> 0 < created (actions (run env es))) \<longrightarrow> continued env (run env es)"
proof (induction es rule: rev_induct)
  case Nil
  show ?case by (simp add: run_def whenReady_window)
next
  case (snoc e es)
  show ?case
    unfolding run_snoc by (rule step_continued) (rule snoc.IH)
qed

lemma run_once:
  "Activate \<notin> set es \<Longrightarrow>
     created (actions (run env es)) \<le> 1
     \<and> (startup (run env es) = Pending \<longrightarrow> created (actions (run env es)) = 0)"
proof (induction es rule: rev_induct)
  case Nil
  show ?case
    using whenReady_window(3,4) [of env] by (simp add: run_def)
next
  case (snoc e es)
  then have ne: "e \<noteq> Activate" and ih: "created (actions (run env es)) \<le> 1"
    "startup (run env es) = Pending \<longrightarrow> created (actions (run env es)) = 0"
    by auto
  show ?case
    unfolding run_snoc using ne ih by (rule step_once)
qed

lemma run_resolved_by_probe:
  "startup (run env es) = Resolved \<longrightarrow>
     (\<exists>p. (sigPoll (run env es) = Some p \<or> fbPoll (run env es) = Some p)
        \<and> status p = ResolvedTrue)"
proof (induction es rule: rev_induct)
  case Nil
  show ?case by (simp add: run_def whenReady_window)
next
  case (snoc e es)
  show ?case
    unfolding run_snoc
    by (rule step_resolved_by_probe) (rule run_resolved_started, rule snoc.IH)
qed

text \<open>
  Claim C1, as amended. In every run, the \<open>flask-server-ready\<close> message is sent at most
  once per main window created, and at most once altogether when no \<open>activate\<close> event
  occurs. It is sent only after the startup promise has settled and the ready handler
  has gone on: the promise resolved, or rejected with the user choosing to continue
  without the server; never while the startup is pending, never after a failure where
  the user chose to quit. The promise is resolved only when one of the two pollers has
  resolved, that is after a probe answered with status 200.
\<close>

theorem ready_notification_after_startup:
  "sent (actions (run env es)) \<le> created (actions (run env es))
   \<and> (0 < sent (actions (run env es)) \<longrightarrow>
        startup (run env es) = Resolved
        \<or> (\<exists>err. startup (run env es) = Rejected err \<and> failChoice env \<noteq> 0))
   \<and> (startup (run env es) = Resolved \<longrightarrow>
        (\<exists>p. (sigPoll (run env es) = Some p \<or> fbPoll (run env es) = Some p)
           \<and> status p = ResolvedTrue))
   \<and> (Activate \<notin> set es \<longrightarrow> sent (actions (run env es)) \<le> 1)"
proof (intro conjI impI)
  have le: "sent (actions (run env es)) \<le> created (actions (run env es))"
    using run_sent_created [of env es] by simp
  show "sent (actions (run env es)) \<le> created (actions (run env es))"
    by (rule le)
  show "startup (run env es) = Resolved \<Longrightarrow>
      \<exists>p. (sigPoll (run env es) = Some p \<or> fbPoll (run env es) = Some p)
         \<and> status p = ResolvedTrue"
    using run_resolved_by_probe [of env es] by simp
  show "Activate \<notin> set es \<Longrightarrow> sent (actions (run env es)) \<le> 1"
    using run_once [of es env] le by simp
  assume "0 < sent (actions (run env es))"
  then have "0 < created (actions (run env es))"
    using le by simp
  then have "continued env (run env es)"
    using run_continued [of env es] by simp
  then show "startup (run env es) = Resolved
        \<or> (\<exists>err. startup (run env es) = Rejected err \<and> failChoice env \<noteq> 0)"
    by (simp add: continued_def)
qed


lemma example_env_fields:
  "failChoice example_env = 1"
  "FLASK_HOST (processEnv example_env) = js ''127.0.0.1''"
  "FLASK_PORT (processEnv example_env) = js ''5000''"
  by (simp_all add: example_env_def FLASK_HOST_def FLASK_PORT_def js_def)

text \<open>
  The claim as stated fails on a run that ends in failure with the user choosing to
  continue: no probe was ever issued, the promise is rejected, and the window that is
  then created sends the message.
\<close>

theorem ready_notification_on_failed_run_counterexample:
  "startup (run example_env [Stderr (js ''Permission denied''), ReadyToShow]) =
       Rejected (Error (js ''Permission denied''))
   \<and> sigPoll (run example_env [Stderr (js ''Permission denied''), ReadyToShow]) = None
   \<and> fbPoll (run example_env [Stderr (js ''Permission denied''), ReadyToShow]) = None
   \<and> actions (run example_env [Stderr (js ''Permission denied''), ReadyToShow]) =
       [Spawn (js ''python3'') [js ''/app/api_server.py''], SetTimer 15000,
        FailDialog (js ''Permission denied''), CreateWindow, CreateTray, ShowWindow,
        SendReady (js ''http://127.0.0.1:5000'') (js ''127.0.0.1'') (js ''5000'')]"
proof -
  define s where "s = run example_env []"
  have s0: "listening s" "\<not> serverStarted s" "startup s = Pending" "sigPoll s = None"
    "fbPoll s = None" "mainWindow s = None"
    "actions s = [Spawn (js ''python3'') [js ''/app/api_server.py''], SetTimer 15000]"
    by (simp_all add: s_def example_start)
  define a where "a = step example_env s (Stderr (js ''Permission denied''))"
  have a: "startup a = Rejected (Error (js ''Permission denied''))" "sigPoll a = None"
    "fbPoll a = None" "mainWindow a = Some False"
    "actions a = [Spawn (js ''python3'') [js ''/app/api_server.py''], SetTimer 15000,
        FailDialog (js ''Permission denied''), CreateWindow, CreateTray]"
    by (simp_all add: a_def step_def handle_def on_stderr_def reject_def afterStartup_def
        windowAndTray_def createWindow_def act_def message_def s0 includes_examples
        example_env_fields Let_def)
  define b where "b = step example_env a ReadyToShow"
  have b: "startup b = Rejected (Error (js ''Permission denied''))" "sigPoll b = None"
    "fbPoll b = None"
    "actions b = [Spawn (js ''python3'') [js ''/app/api_server.py''], SetTimer 15000,
        FailDialog (js ''Permission denied''), CreateWindow, CreateTray, ShowWindow,
        SendReady (js ''http://127.0.0.1:5000'') (js ''127.0.0.1'') (js ''5000'')]"
    by (simp_all add: b_def step_def handle_def on_ready_to_show_def act_def a
        example_env_fields)
       (simp add: js_def)
  have r: "run example_env [Stderr (js ''Permission denied''), ReadyToShow] = b"
    by (simp add: run_def b_def a_def s_def)
  show ?thesis
    unfolding r using b by simp
qed

theorem ready_notification_after_startup_witness:
  "Activate \<notin> set [Stdout (js ''Running on x''), SigPoll (Outcome (Response 200)), ReadyToShow]
   \<and> sent (actions (run example_env
         [Stdout (js ''Running on x''), SigPoll (Outcome (Response 200)), ReadyToShow])) = 1
   \<and> startup (run example_env
         [Stdout (js ''Running on x''), SigPoll (Outcome (Response 200)), ReadyToShow]) = Resolved
   \<and> (\<exists>p. (sigPoll (run example_env
               [Stdout (js ''Running on x''), SigPoll (Outcome (Response 200)), ReadyToShow])
             = Some p
            \<or> fbPoll (run example_env
               [Stdout (js ''Running on x''), SigPoll (Outcome (Response 200)), ReadyToShow])
             = Some p)
         \<and> status p = ResolvedTrue)"
proof -
  define es where
    "es = [Stdout (js ''Running on x''), SigPoll (Outcome (Response 200)), ReadyToShow]"
  define s where "s = run example_env [Stdout (js ''Running on x'')]"
  have s0: "startup s = Pending" "sigPoll s = Some (checkFlaskServer 10 1000)"
    by (simp_all add: s_def example_signature_run)
  have m0: "mainWindow s = None"
    by (simp add: s_def run_unfold step_def handle_def on_stdout_def afterStartup_def
        example_start includes_examples)
  define a where "a = step example_env s (SigPoll (Outcome (Response 200)))"
  have a: "startup a = Resolved" "mainWindow a = Some False"
    by (simp_all add: a_def step_def handle_def on_sigPoll_def s0 m0 settled_def
        checkFlaskServer_def check_def poller_step_def on_response_def poller_resolve_def resolve_def
        afterStartup_def windowAndTray_def createWindow_def act_def Let_def)
  define b where "b = step example_env a ReadyToShow"
  have b: "startup b = Resolved" "0 < sent (actions b)"
    by (simp_all add: b_def step_def handle_def on_ready_to_show_def act_def a sent_append)
  have r: "run example_env es = b"
    by (simp add: run_def es_def b_def a_def s_def)
  have na: "Activate \<notin> set es"
    by (simp add: es_def)
  note t = ready_notification_after_startup [of example_env es]
  have le: "sent (actions (run example_env es)) \<le> 1"
    using t na by blast
  have one: "sent (actions (run example_env es)) = 1"
    using le b(2) by (simp add: r)
  have res: "startup (run example_env es) = Resolved"
    by (simp add: r b)
  have ex: "\<exists>p. (sigPoll (run example_env es) = Some p \<or> fbPoll (run example_env es) = Some p)
         \<and> status p = ResolvedTrue"
    using t res by blast
  show ?thesis
    unfolding es_def [symmetric] using na one res ex by blast
qed

end
